theory Spec2Isabelle
  imports Main "HOL-Library.Char_ord" "HOL-Library.List_Lexorder" "HOL-Library.Sublist"
    "HOL-Library.Multiset"
begin

section \<open>Go values used by agent/ui\_endpoint.go\<close>

text \<open>
  A Go string is a sequence of bytes and \<open><\<close> on strings compares bytewise, which is the
  lexicographic order on \<^typ>\<open>string\<close> obtained from the order on \<^typ>\<open>char\<close>.

  A Go slice is either nil or holds a sequence of elements; \<open>None\<close> is the nil slice.
  \<open>append\<close> always yields a non-nil slice, ranging over a nil slice runs no iteration.
\<close>

type_synonym 'a slice = "'a list option"

definition elems :: "'a slice \<Rightarrow> 'a list" where
  "elems s = (case s of None \<Rightarrow> [] | Some xs \<Rightarrow> xs)"

definition append_slice :: "'a slice \<Rightarrow> 'a \<Rightarrow> 'a slice" where
  "append_slice s x = Some (elems s @ [x])"

text \<open>\<open>sort.Strings\<close> sorts in place; a nil slice stays nil.\<close>

definition sort_Strings :: "string slice \<Rightarrow> string slice" where
  "sort_Strings s = map_option sort s"

text \<open>
  The run-time panics the aggregator's statements can raise: an assignment to an entry of a
  nil map, a field access through a nil pointer, an index beyond the length of a slice.
\<close>

datatype panic = NilMapWrite | NilDereference | IndexOutOfRange

text \<open>
  \<open>map[string]struct{}\<close> is a set of strings; \<open>None\<close> is the nil map. Reading a nil map
  finds nothing, writing to it panics.
\<close>

type_synonym string_set = "string set option"

definition has_key :: "string_set \<Rightarrow> string \<Rightarrow> bool" where
  "has_key m k = (case m of None \<Rightarrow> False | Some S \<Rightarrow> k \<in> S)"

definition set_key :: "string_set \<Rightarrow> string \<Rightarrow> panic + string_set" where
  "set_key m k = (case m of None \<Rightarrow> Inl NilMapWrite | Some S \<Rightarrow> Inr (Some (insert k S)))"

section \<open>Data model\<close>

text \<open>
  The declarations of package \<open>structs\<close>, \<open>config\<close> and \<open>api\<close> are not part of the sources at
  hand; the records below carry the fields that \<open>summarizeServices\<close> reads, named as the code
  names them (with a suffix where two structs share a field name).
\<close>

text \<open>Modelled from the spec: \<open>structs.EnterpriseMeta\<close>, the partition and the namespace
  of a service identity.\<close>

record EnterpriseMeta =
  Partition :: string
  Namespace :: string

text \<open>Modelled from the spec: \<open>structs.ServiceID\<close>, the composite key
  (name, partition, namespace).\<close>

record ServiceID =
  ID :: string
  EnterpriseMeta_sid :: EnterpriseMeta

text \<open>Modelled from the spec: \<open>ServiceID.LessThan\<close>, the total order by name, then
  partition, then namespace.\<close>

definition LessThan :: "ServiceID \<Rightarrow> ServiceID \<Rightarrow> bool" where
  "LessThan a b =
     (ID a < ID b \<or>
      (ID a = ID b \<and>
        (Partition (EnterpriseMeta_sid a) < Partition (EnterpriseMeta_sid b) \<or>
         (Partition (EnterpriseMeta_sid a) = Partition (EnterpriseMeta_sid b) \<and>
          Namespace (EnterpriseMeta_sid a) < Namespace (EnterpriseMeta_sid b)))))"

record ServiceName =
  Name_sn :: string
  EnterpriseMeta_sn :: EnterpriseMeta

definition ToServiceID :: "ServiceName \<Rightarrow> ServiceID" where
  "ToServiceID n = \<lparr>ID = Name_sn n, EnterpriseMeta_sid = EnterpriseMeta_sn n\<rparr>"

definition NewServiceID :: "string \<Rightarrow> EnterpriseMeta \<Rightarrow> ServiceID" where
  "NewServiceID name entMeta = \<lparr>ID = name, EnterpriseMeta_sid = entMeta\<rparr>"

record ConnectProxyConfig =
  DestinationServiceName :: string

text \<open>\<open>structs.NodeService\<close>: one service instance. \<open>Meta\<close> is a \<open>map[string]string\<close>.\<close>

record NodeService =
  Kind_svc :: string
  Service :: string
  Tags_svc :: "string list"
  Meta :: "string \<rightharpoonup> string"
  Proxy :: ConnectProxyConfig
  EnterpriseMeta_svc :: EnterpriseMeta

record HealthCheck =
  Status :: string

text \<open>
  \<open>structs.GatewayService\<close>: \<open>Service_gw\<close> is the field \<open>Service\<close> that the aggregator
  resolves to a ServiceID; \<open>Addresses_gw\<close> is the method \<open>Addresses\<close>, the association's
  address enumeration, which takes the candidate DNS names.
\<close>

record GatewayService =
  Service_gw :: ServiceName
  Addresses_gw :: "string list \<Rightarrow> string list"

record Node =
  Node :: string

text \<open>One element of \<open>structs.ServiceDump\<close>; \<open>None\<close> is a nil pointer.\<close>

record ServiceInfo =
  Node_csn :: Node
  Service_csn :: "NodeService option"
  Checks :: "HealthCheck list"
  GatewayService :: "GatewayService option"

record RuntimeConfig =
  DNSDomain :: string
  DNSAltDomain :: string

definition metaExternalSource :: string where
  "metaExternalSource = ''external-source''"

text \<open>Modelled from the spec: the constants \<open>structs.ServiceKindConnectProxy\<close>,
  \<open>api.HealthPassing\<close>, \<open>api.HealthWarning\<close> and \<open>api.HealthCritical\<close>.\<close>

definition ServiceKindConnectProxy :: string where
  "ServiceKindConnectProxy = ''connect-proxy''"

definition HealthPassing :: string where
  "HealthPassing = ''passing''"

definition HealthWarning :: string where
  "HealthWarning = ''warning''"

definition HealthCritical :: string where
  "HealthCritical = ''critical''"

record GatewayConfig =
  Addresses :: "string slice"
  addressesSet :: string_set

text \<open>\<open>ServiceSummary\<close>; the counters are Go \<open>int\<close>s, which count records and checks held
  in memory and so stay far below \<open>2^63\<close>.\<close>

record ServiceSummary =
  Kind :: string
  Name :: string
  Tags :: "string slice"
  Nodes :: "string slice"
  InstanceCount :: int
  ProxyFor :: "string slice"
  proxyForSet :: string_set
  ChecksPassing :: int
  ChecksWarning :: int
  ChecksCritical :: int
  ExternalSources :: "string slice"
  externalSourceSet :: string_set
  GatewayConfig :: GatewayConfig
  EnterpriseMeta :: EnterpriseMeta

section \<open>summarizeServices\<close>

text \<open>
  The working state of one call: the list \<open>services\<close> and the map \<open>summary\<close>. The map holds
  pointers, each created by \<open>getService\<close> and stored under one key only, so a summary changed
  through its pointer is the map's entry changed.
\<close>

record agg_state =
  services :: "ServiceID list"
  summary :: "ServiceID \<rightharpoonup> ServiceSummary"

definition new_summary :: "ServiceID \<Rightarrow> ServiceSummary" where
  "new_summary service =
     \<lparr>Kind = '''', Name = ID service, Tags = None, Nodes = None, InstanceCount = 0,
      ProxyFor = None, proxyForSet = None,
      ChecksPassing = 0, ChecksWarning = 0, ChecksCritical = 0,
      ExternalSources = None, externalSourceSet = None,
      GatewayConfig = \<lparr>Addresses = None, addressesSet = None\<rparr>,
      EnterpriseMeta = EnterpriseMeta_sid service\<rparr>"

definition getService :: "agg_state \<Rightarrow> ServiceID \<Rightarrow> ServiceSummary \<times> agg_state" where
  "getService st service =
     (case summary st service of
        Some serv \<Rightarrow> (serv, st)
      | None \<Rightarrow>
          (let serv = new_summary service
           in (serv, st\<lparr>summary := (summary st)(service \<mapsto> serv),
                        services := services st @ [service]\<rparr>)))"

text \<open>Writing through the pointer that \<open>getService\<close> returned for \<open>service\<close>.\<close>

definition put_summary :: "agg_state \<Rightarrow> ServiceID \<Rightarrow> ServiceSummary \<Rightarrow> agg_state" where
  "put_summary st service sm = st\<lparr>summary := (summary st)(service \<mapsto> sm)\<rparr>"

subsection \<open>modifySummaryForGatewayService\<close>

text \<open>The first loop: one candidate DNS name for each non-empty domain. The helper
  \<open>serviceIngressDNSName\<close> is not part of the sources at hand and is a parameter, already
  applied to the service name, the datacenter and the enterprise meta.\<close>

fun dnsAddresses_loop :: "(string \<Rightarrow> string) \<Rightarrow> string list \<Rightarrow> string list \<Rightarrow> string list" where
  "dnsAddresses_loop mk [] dnsAddresses = dnsAddresses"
| "dnsAddresses_loop mk (domain # rest) dnsAddresses =
     (if domain = '''' then dnsAddresses_loop mk rest dnsAddresses
      else dnsAddresses_loop mk rest (dnsAddresses @ [mk domain]))"

definition dnsAddresses_of ::
  "(string \<Rightarrow> string \<Rightarrow> string \<Rightarrow> EnterpriseMeta \<Rightarrow> string) \<Rightarrow> RuntimeConfig \<Rightarrow> string \<Rightarrow>
     GatewayService \<Rightarrow> string list" where
  "dnsAddresses_of serviceIngressDNSName cfg datacenter gwsvc =
     dnsAddresses_loop
       (\<lambda>domain. serviceIngressDNSName (Name_sn (Service_gw gwsvc)) datacenter domain
                   (EnterpriseMeta_sn (Service_gw gwsvc)))
       [DNSDomain cfg, DNSAltDomain cfg] []"

text \<open>The second loop, over the addresses the association yields.\<close>

fun add_addresses :: "ServiceSummary \<Rightarrow> string list \<Rightarrow> panic + ServiceSummary" where
  "add_addresses sm [] = Inr sm"
| "add_addresses sm (addr # rest) =
     (let gc = GatewayConfig sm in
      if \<not> has_key (addressesSet gc) addr then
        (let gc1 = (if addressesSet gc = None then gc\<lparr>addressesSet := Some {}\<rparr> else gc) in
         case set_key (addressesSet gc1) addr of
           Inl e \<Rightarrow> Inl e
         | Inr m \<Rightarrow>
             add_addresses
               (sm\<lparr>GatewayConfig :=
                      gc1\<lparr>addressesSet := m,
                          Addresses := append_slice (Addresses gc1) addr\<rparr>\<rparr>) rest)
      else add_addresses sm rest)"

definition modifySummaryForGatewayService ::
  "(string \<Rightarrow> string \<Rightarrow> string \<Rightarrow> EnterpriseMeta \<Rightarrow> string) \<Rightarrow> RuntimeConfig \<Rightarrow> string \<Rightarrow>
     ServiceSummary \<Rightarrow> GatewayService \<Rightarrow> panic + ServiceSummary" where
  "modifySummaryForGatewayService serviceIngressDNSName cfg datacenter sm gwsvc =
     add_addresses sm
       (Addresses_gw gwsvc (dnsAddresses_of serviceIngressDNSName cfg datacenter gwsvc))"

subsection \<open>The body of the scan for a record with a direct instance\<close>

text \<open>Lines 248 to 256: \<open>ProxyFor\<close>.\<close>

definition add_proxyFor :: "ServiceSummary \<Rightarrow> NodeService \<Rightarrow> panic + ServiceSummary" where
  "add_proxyFor sm svc =
     (if Kind_svc svc = ServiceKindConnectProxy then
        (if \<not> has_key (proxyForSet sm) (DestinationServiceName (Proxy svc)) then
           (let sum1 = (if proxyForSet sm = None then sm\<lparr>proxyForSet := Some {}\<rparr> else sm) in
            case set_key (proxyForSet sum1) (DestinationServiceName (Proxy svc)) of
              Inl e \<Rightarrow> Inl e
            | Inr m \<Rightarrow>
                Inr (sum1\<lparr>proxyForSet := m,
                          ProxyFor := append_slice (ProxyFor sum1)
                                        (DestinationServiceName (Proxy svc))\<rparr>))
         else Inr sm)
      else Inr sm)"

text \<open>Lines 257 to 269: the inner loop looks for the tag among the tags collected so far
  and stops at the first hit.\<close>

fun tag_found :: "string list \<Rightarrow> string \<Rightarrow> bool" where
  "tag_found [] tag = False"
| "tag_found (existing # rest) tag = (if existing = tag then True else tag_found rest tag)"

fun add_tags :: "ServiceSummary \<Rightarrow> string list \<Rightarrow> ServiceSummary" where
  "add_tags sm [] = sm"
| "add_tags sm (tag # rest) =
     (if \<not> tag_found (elems (Tags sm)) tag
      then add_tags (sm\<lparr>Tags := append_slice (Tags sm) tag\<rparr>) rest
      else add_tags sm rest)"

text \<open>Lines 275 to 284: \<open>len(svc.Meta) > 0\<close> says that the map has an entry; reading a key
  that is missing gives the empty string.\<close>

definition meta_get :: "(string \<rightharpoonup> string) \<Rightarrow> string \<Rightarrow> string" where
  "meta_get m k = (case m k of None \<Rightarrow> '''' | Some v \<Rightarrow> v)"

definition add_externalSource :: "ServiceSummary \<Rightarrow> NodeService \<Rightarrow> panic + ServiceSummary" where
  "add_externalSource sm svc =
     (if Meta svc \<noteq> Map.empty \<and> meta_get (Meta svc) metaExternalSource \<noteq> '''' then
        (let source = meta_get (Meta svc) metaExternalSource;
             sum1 = (if externalSourceSet sm = None then sm\<lparr>externalSourceSet := Some {}\<rparr>
                     else sm) in
         if \<not> has_key (externalSourceSet sum1) source then
           (case set_key (externalSourceSet sum1) source of
              Inl e \<Rightarrow> Inl e
            | Inr m \<Rightarrow>
                Inr (sum1\<lparr>externalSourceSet := m,
                          ExternalSources := append_slice (ExternalSources sum1) source\<rparr>))
         else Inr sum1)
      else Inr sm)"

text \<open>Lines 286 to 295: the switch has no default case.\<close>

fun add_checks :: "ServiceSummary \<Rightarrow> HealthCheck list \<Rightarrow> ServiceSummary" where
  "add_checks sm [] = sm"
| "add_checks sm (check # rest) =
     (if Status check = HealthPassing
        then add_checks (sm\<lparr>ChecksPassing := ChecksPassing sm + 1\<rparr>) rest
      else if Status check = HealthWarning
        then add_checks (sm\<lparr>ChecksWarning := ChecksWarning sm + 1\<rparr>) rest
      else if Status check = HealthCritical
        then add_checks (sm\<lparr>ChecksCritical := ChecksCritical sm + 1\<rparr>) rest
      else add_checks sm rest)"

text \<open>Lines 244 to 295, on the summary that \<open>getService\<close> returned.\<close>

definition add_instance :: "ServiceSummary \<Rightarrow> ServiceInfo \<Rightarrow> NodeService \<Rightarrow> panic + ServiceSummary" where
  "add_instance sm csn svc =
     (let sum1 = sm\<lparr>Nodes := append_slice (Nodes sm) (Node (Node_csn csn))\<rparr>;
          sum2 = sum1\<lparr>Kind := Kind_svc svc\<rparr>;
          sum3 = sum2\<lparr>InstanceCount := InstanceCount sum2 + 1\<rparr> in
      case add_proxyFor sum3 svc of
        Inl e \<Rightarrow> Inl e
      | Inr sum4 \<Rightarrow>
          (case add_externalSource (add_tags sum4 (Tags_svc svc)) svc of
             Inl e \<Rightarrow> Inl e
           | Inr sum5 \<Rightarrow> Inr (add_checks sum5 (Checks csn))))"

subsection \<open>The scan\<close>

definition scan_gateway ::
  "(string \<Rightarrow> string \<Rightarrow> string \<Rightarrow> EnterpriseMeta \<Rightarrow> string) \<Rightarrow> RuntimeConfig \<Rightarrow> string \<Rightarrow>
     agg_state \<Rightarrow> ServiceInfo \<Rightarrow> panic + agg_state" where
  "scan_gateway serviceIngressDNSName cfg datacenter st csn =
     (case GatewayService csn of
        None \<Rightarrow> Inr st
      | Some gwsvc \<Rightarrow>
          (let (sm, st1) = getService st (ToServiceID (Service_gw gwsvc)) in
           case modifySummaryForGatewayService serviceIngressDNSName cfg datacenter sm gwsvc of
             Inl e \<Rightarrow> Inl e
           | Inr sm' \<Rightarrow> Inr (put_summary st1 (ToServiceID (Service_gw gwsvc)) sm')))"

definition scan_instance :: "agg_state \<Rightarrow> ServiceInfo \<Rightarrow> panic + agg_state" where
  "scan_instance st csn =
     (case Service_csn csn of
        None \<Rightarrow> Inr st
      | Some svc \<Rightarrow>
          (let sid = NewServiceID (Service svc) (EnterpriseMeta_svc svc);
               (sm, st1) = getService st sid in
           case add_instance sm csn svc of
             Inl e \<Rightarrow> Inl e
           | Inr sm' \<Rightarrow> Inr (put_summary st1 sid sm')))"

definition scan_record ::
  "(string \<Rightarrow> string \<Rightarrow> string \<Rightarrow> EnterpriseMeta \<Rightarrow> string) \<Rightarrow> RuntimeConfig \<Rightarrow> string \<Rightarrow>
     agg_state \<Rightarrow> ServiceInfo \<Rightarrow> panic + agg_state" where
  "scan_record serviceIngressDNSName cfg datacenter st csn =
     (case scan_gateway serviceIngressDNSName cfg datacenter st csn of
        Inl e \<Rightarrow> Inl e
      | Inr st1 \<Rightarrow> scan_instance st1 csn)"

fun scan ::
  "(string \<Rightarrow> string \<Rightarrow> string \<Rightarrow> EnterpriseMeta \<Rightarrow> string) \<Rightarrow> RuntimeConfig \<Rightarrow> string \<Rightarrow>
     agg_state \<Rightarrow> ServiceInfo list \<Rightarrow> panic + agg_state" where
  "scan serviceIngressDNSName cfg datacenter st [] = Inr st"
| "scan serviceIngressDNSName cfg datacenter st (csn # dump) =
     (case scan_record serviceIngressDNSName cfg datacenter st csn of
        Inl e \<Rightarrow> Inl e
      | Inr st1 \<Rightarrow> scan serviceIngressDNSName cfg datacenter st1 dump)"

subsection \<open>The final pass\<close>

text \<open>
  \<open>sort.Slice\<close> with \<open>LessThan\<close>. The list holds each ServiceID once and \<open>LessThan\<close> is a
  strict total order, so the sorted list does not depend on the sorting algorithm; the model
  inserts each element in front of the first one that is not less than it.
\<close>

fun insert_less :: "('a \<Rightarrow> 'a \<Rightarrow> bool) \<Rightarrow> 'a \<Rightarrow> 'a list \<Rightarrow> 'a list" where
  "insert_less lt x [] = [x]"
| "insert_less lt x (y # ys) =
     (if lt y x then y # insert_less lt x ys else x # y # ys)"

definition sort_Slice :: "('a \<Rightarrow> 'a \<Rightarrow> bool) \<Rightarrow> 'a list \<Rightarrow> 'a list" where
  "sort_Slice lt xs = foldr (insert_less lt) xs []"

text \<open>
  Lines 302 to 309. \<open>output\<close> is a slice of pointers, \<open>None\<close> the nil pointer. Reading a
  missing key of \<open>summary\<close> gives a nil pointer, whose field \<open>Nodes\<close> cannot be read; an index
  at or beyond \<open>len(output)\<close> cannot be assigned. Sorting a summary a second time would leave
  it as it is, so the sorted summary is stored in \<open>output\<close> only; \<open>sort_summary\<close> is the
  pair of calls of \<open>sort.Strings\<close>.
\<close>

definition sort_summary :: "ServiceSummary \<Rightarrow> ServiceSummary" where
  "sort_summary sm =
     (let sum1 = sm\<lparr>Nodes := sort_Strings (Nodes sm)\<rparr>
      in sum1\<lparr>Tags := sort_Strings (Tags sum1)\<rparr>)"

fun fill_output ::
  "(ServiceID \<rightharpoonup> ServiceSummary) \<Rightarrow> nat \<Rightarrow> ServiceID list \<Rightarrow> ServiceSummary option list \<Rightarrow>
     panic + ServiceSummary option list" where
  "fill_output summ idx [] output = Inr output"
| "fill_output summ idx (service # rest) output =
     (case summ service of
        None \<Rightarrow> Inl NilDereference
      | Some sm \<Rightarrow>
          (if idx < length output
           then fill_output summ (idx + 1) rest (output[idx := Some (sort_summary sm)])
           else Inl IndexOutOfRange))"

definition summarizeServices ::
  "(string \<Rightarrow> string \<Rightarrow> string \<Rightarrow> EnterpriseMeta \<Rightarrow> string) \<Rightarrow> ServiceInfo list \<Rightarrow>
     RuntimeConfig \<Rightarrow> string \<Rightarrow> panic + ServiceSummary option list" where
  "summarizeServices serviceIngressDNSName dump cfg datacenter =
     (case scan serviceIngressDNSName cfg datacenter \<lparr>services = [], summary = Map.empty\<rparr> dump of
        Inl e \<Rightarrow> Inl e
      | Inr st \<Rightarrow>
          fill_output (summary st) 0 (sort_Slice LessThan (services st))
            (replicate (card (dom (summary st))) None))"

section \<open>Serialization of a summary\<close>

text \<open>
  The handlers' results are written with \<open>encoding/json\<close>, which is outside the repository.
  The encoding of a struct is fixed by its field tags, which are in the source: exported
  fields in the order of their declaration, a field tagged \<open>omitempty\<close> left out when it is
  the empty string or a slice of length 0, a nil slice written as \<open>null\<close>, any other slice
  as an array. \<open>omitempty\<close> never leaves out a field of struct type, so \<open>GatewayConfig\<close> is
  always written. The fields of the embedded \<open>EnterpriseMeta\<close> are declared outside the
  sources at hand; their encoding is the parameter \<open>em_json\<close>.
\<close>

datatype json =
  JNull | JString string | JNumber int | JArray "json list" | JObject "(string \<times> json) list"

definition marshal_strings :: "string slice \<Rightarrow> json" where
  "marshal_strings sl = (case sl of None \<Rightarrow> JNull | Some xs \<Rightarrow> JArray (map JString xs))"

definition omitempty_strings :: "string \<Rightarrow> string slice \<Rightarrow> (string \<times> json) list" where
  "omitempty_strings name sl =
     (if length (elems sl) = 0 then [] else [(name, marshal_strings sl)])"

definition marshal_GatewayConfig :: "GatewayConfig \<Rightarrow> json" where
  "marshal_GatewayConfig gc = JObject (omitempty_strings ''Addresses'' (Addresses gc))"

definition declared_fields :: "ServiceSummary \<Rightarrow> (string \<times> json) list" where
  "declared_fields s =
     (if Kind s = '''' then [] else [(''Kind'', JString (Kind s))]) @
     [(''Name'', JString (Name s)),
      (''Tags'', marshal_strings (Tags s)),
      (''Nodes'', marshal_strings (Nodes s)),
      (''InstanceCount'', JNumber (InstanceCount s))] @
     omitempty_strings ''ProxyFor'' (ProxyFor s) @
     [(''ChecksPassing'', JNumber (ChecksPassing s)),
      (''ChecksWarning'', JNumber (ChecksWarning s)),
      (''ChecksCritical'', JNumber (ChecksCritical s)),
      (''ExternalSources'', marshal_strings (ExternalSources s)),
      (''GatewayConfig'', marshal_GatewayConfig (GatewayConfig s))]"

definition declared_names :: "string list" where
  "declared_names =
     [''Kind'', ''Name'', ''Tags'', ''Nodes'', ''InstanceCount'', ''ProxyFor'', ''ChecksPassing'',
      ''ChecksWarning'', ''ChecksCritical'', ''ExternalSources'', ''GatewayConfig'']"

text \<open>A field of the embedded struct is hidden by a declared field of the same name.\<close>

definition summary_fields ::
  "(EnterpriseMeta \<Rightarrow> (string \<times> json) list) \<Rightarrow> ServiceSummary \<Rightarrow> (string \<times> json) list" where
  "summary_fields em_json s =
     declared_fields s @
     filter (\<lambda>(name, v). name \<notin> set declared_names) (em_json (EnterpriseMeta s))"

definition marshal_ServiceSummary ::
  "(EnterpriseMeta \<Rightarrow> (string \<times> json) list) \<Rightarrow> ServiceSummary \<Rightarrow> json" where
  "marshal_ServiceSummary em_json s = JObject (summary_fields em_json s)"

text \<open>The value of a member of a serialized object, \<open>None\<close> when the member is absent.\<close>

definition member :: "json \<Rightarrow> string \<Rightarrow> json option" where
  "member j name = (case j of JObject fs \<Rightarrow> map_of fs name | _ \<Rightarrow> None)"

definition is_array :: "json option \<Rightarrow> bool" where
  "is_array j = (case j of Some (JArray xs) \<Rightarrow> True | _ \<Rightarrow> False)"

section \<open>UIMetricsProxy\<close>

datatype http_error = NotFoundError string | BadRequestError string

text \<open>\<open>url.URL\<close> of the Go standard library, without the user information.\<close>

record URL =
  Scheme :: string
  Opaque :: string
  Host :: string
  Path :: string
  RawPath :: string
  ForceQuery :: bool
  RawQuery :: string
  Fragment :: string

text \<open>Of the inbound request the handler reads \<open>req.URL\<close> only.\<close>

record Request =
  URL_req :: URL

record UIMetricsProxy_config =
  BaseURL :: string

text \<open>
  Of the receiver the handler reads the flag behind \<open>IsUIEnabled()\<close> and the value that
  \<open>metricsProxyCfg.Load()\<close> returns; \<open>None\<close> is a value that is not a
  \<open>config.UIMetricsProxy\<close>, for which the type assertion fails.
\<close>

record HTTPHandlers =
  IsUIEnabled :: bool
  metricsProxyCfg :: "UIMetricsProxy_config option"

text \<open>
  \<open>url.Parse\<close> and \<open>URL.String\<close> belong to the Go standard library, not to the repository:
  the handler takes them as parameters. \<open>url_Parse\<close> returns \<open>None\<close> for an error.
\<close>

record net_url =
  url_Parse :: "string \<Rightarrow> URL option"
  URL_String :: "URL \<Rightarrow> string"

definition HasPrefix :: "string \<Rightarrow> string \<Rightarrow> bool" where
  "HasPrefix s pre = prefix pre s"

definition TrimPrefix :: "string \<Rightarrow> string \<Rightarrow> string" where
  "TrimPrefix s pre = (if HasPrefix s pre then drop (length pre) s else s)"

text \<open>
  \<open>path.Clean\<close>, following the loop of the standard library: \<open>out\<close> is the buffer written
  so far, \<open>dotdot\<close> the index in it below which \<open>..\<close> must not remove anything. \<open>backtrack\<close>
  is the inner loop that steps \<open>w\<close> back to the last slash.
\<close>

fun backtrack :: "string \<Rightarrow> nat \<Rightarrow> nat \<Rightarrow> nat" where
  "backtrack out dotdot w =
     (if w > dotdot \<and> out ! w \<noteq> CHR ''/'' then backtrack out dotdot (w - 1) else w)"

declare backtrack.simps [simp del]

function clean_loop :: "bool \<Rightarrow> string \<Rightarrow> string \<Rightarrow> nat \<Rightarrow> string" where
  "clean_loop rooted [] out dotdot = out"
| "clean_loop rooted (c # rest) out dotdot =
     (if c = CHR ''/'' then clean_loop rooted rest out dotdot
      else if c = CHR ''.'' \<and> (rest = [] \<or> hd rest = CHR ''/'')
        then clean_loop rooted rest out dotdot
      else if c = CHR ''.'' \<and> hd rest = CHR ''.'' \<and> (tl rest = [] \<or> hd (tl rest) = CHR ''/'')
        then (if length out > dotdot
                then clean_loop rooted (tl rest)
                       (take (backtrack out dotdot (length out - 1)) out) dotdot
              else if \<not> rooted
                then (let out1 = (if length out > 0 then out @ ''/'' else out) @ ''..''
                      in clean_loop rooted (tl rest) out1 (length out1))
              else clean_loop rooted (tl rest) out dotdot)
      else (let out1 = (if rooted \<and> length out \<noteq> 1 \<or> \<not> rooted \<and> length out \<noteq> 0
                        then out @ ''/'' else out)
            in clean_loop rooted (dropWhile (\<lambda>b. b \<noteq> CHR ''/'') rest)
                 (out1 @ c # takeWhile (\<lambda>b. b \<noteq> CHR ''/'') rest) dotdot))"
  by pat_completeness auto
termination
  by (relation "measure (\<lambda>(rooted, path, out, dotdot). length path)")
     (auto simp: less_Suc_eq_le length_dropWhile_le intro: le_trans[OF _ le_SucI])

definition path_Clean :: "string \<Rightarrow> string" where
  "path_Clean path =
     (if path = [] then ''.''
      else (let out = (if hd path = CHR ''/'' then clean_loop True (tl path) ''/'' 1
                       else clean_loop False path [] 0)
            in if out = [] then ''.'' else out))"

text \<open>
  The handler. The logging calls are left out. \<open>Inl\<close> is the error it returns; \<open>Inr u\<close>
  says that it reached \<open>proxy.ServeHTTP\<close>, with \<open>u\<close> the URL that the \<open>Director\<close> puts in
  place of the outbound request's URL, which is where the relay sends the request.
\<close>

definition UIMetricsProxy :: "net_url \<Rightarrow> HTTPHandlers \<Rightarrow> Request \<Rightarrow> http_error + URL" where
  "UIMetricsProxy lib s req =
     (if \<not> IsUIEnabled s then Inl (NotFoundError ''UI is not enabled'')
      else case metricsProxyCfg s of
        None \<Rightarrow> Inl (NotFoundError ''Metrics proxy is not enabled'')
      | Some cfg \<Rightarrow>
          if BaseURL cfg = '''' then Inl (NotFoundError ''Metrics proxy is not enabled'')
          else (let subPath = TrimPrefix (Path (URL_req req)) ''/v1/internal/ui/metrics-proxy'';
                    newURL = BaseURL cfg @ subPath
                in case url_Parse lib newURL of
                     None \<Rightarrow> Inl (BadRequestError ''Invalid path.'')
                   | Some u0 \<Rightarrow>
                       (let u = u0\<lparr>Path := path_Clean (Path u0)\<rparr>
                        in if \<not> HasPrefix (URL_String lib u) (BaseURL cfg)
                           then Inl (BadRequestError ''Invalid path.'')
                           else Inr u)))"

subsection \<open>The standard library on plain URLs\<close>

text \<open>
  To run the handler on the URLs of the scenarios, \<open>plain_url_Parse\<close> and
  \<open>plain_URL_String\<close> give the results of \<open>url.Parse\<close> and \<open>URL.String\<close> on plain absolute
  URLs: a lower-case scheme, \<open>://\<close>, a host name with an optional numeric port, a path and
  an optional query, all made of letters, digits and \<open>-._~/:=&?\<close>, for which the library
  neither decodes nor escapes anything. On any other string \<open>plain_url_Parse\<close> returns
  \<open>None\<close>, which then says nothing about the library.
\<close>

definition lower_alpha :: "char \<Rightarrow> bool" where
  "lower_alpha c \<longleftrightarrow> c \<in> set ''abcdefghijklmnopqrstuvwxyz''"

definition digit :: "char \<Rightarrow> bool" where
  "digit c \<longleftrightarrow> c \<in> set ''0123456789''"

definition plain_char :: "char \<Rightarrow> bool" where
  "plain_char c \<longleftrightarrow>
     lower_alpha c \<or> digit c \<or> c \<in> set ''ABCDEFGHIJKLMNOPQRSTUVWXYZ-._~/:=&?''"

definition plain_url_Parse :: "string \<Rightarrow> URL option" where
  "plain_url_Parse rawURL =
     (let scheme = takeWhile lower_alpha rawURL;
          rest0 = dropWhile lower_alpha rawURL
      in if \<not> list_all plain_char rawURL \<or> scheme = [] \<or> \<not> prefix ''://'' rest0 then None
         else (let rest1 = drop 1 rest0;
                   force = (last rest1 = CHR ''?'' \<and> count_list rest1 CHR ''?'' = 1);
                   rest2 = (if force then butlast rest1
                            else takeWhile (\<lambda>c. c \<noteq> CHR ''?'') rest1);
                   query = (if force then []
                            else drop 1 (dropWhile (\<lambda>c. c \<noteq> CHR ''?'') rest1));
                   authority = takeWhile (\<lambda>c. c \<noteq> CHR ''/'') (drop 2 rest2);
                   path = dropWhile (\<lambda>c. c \<noteq> CHR ''/'') (drop 2 rest2);
                   hostname = takeWhile (\<lambda>c. c \<noteq> CHR '':'') authority;
                   port = dropWhile (\<lambda>c. c \<noteq> CHR '':'') authority
               in if hostname = [] \<or> \<not> list_all digit (drop 1 port) then None
                  else Some \<lparr>Scheme = scheme, Opaque = [], Host = authority, Path = path,
                         RawPath = [], ForceQuery = force, RawQuery = query, Fragment = []\<rparr>))"

definition plain_URL_String :: "URL \<Rightarrow> string" where
  "plain_URL_String u =
     Scheme u @ '':'' @ ''//'' @ Host u @
     (if Path u \<noteq> [] \<and> hd (Path u) \<noteq> CHR ''/'' then ''/'' else []) @ Path u @
     (if ForceQuery u \<or> RawQuery u \<noteq> [] then ''?'' @ RawQuery u else []) @
     (if Fragment u \<noteq> [] then ''#'' @ Fragment u else [])"

definition plain_net_url :: net_url where
  "plain_net_url = \<lparr>url_Parse = plain_url_Parse, URL_String = plain_URL_String\<rparr>"

section \<open>What a dump contributes to one service\<close>

text \<open>
  The notions in which the properties of the aggregator are stated. \<open>first_seen\<close> keeps the
  first occurrence of every value, in the order of the list.
\<close>

fun first_seen_into :: "'a list \<Rightarrow> 'a list \<Rightarrow> 'a list" where
  "first_seen_into acc [] = acc"
| "first_seen_into acc (x # xs) = first_seen_into (if x \<in> set acc then acc else acc @ [x]) xs"

definition first_seen :: "'a list \<Rightarrow> 'a list" where
  "first_seen xs = first_seen_into [] xs"

definition instance_of :: "ServiceID \<Rightarrow> ServiceInfo \<Rightarrow> NodeService option" where
  "instance_of sid csn =
     (case Service_csn csn of
        None \<Rightarrow> None
      | Some svc \<Rightarrow>
          if NewServiceID (Service svc) (EnterpriseMeta_svc svc) = sid then Some svc else None)"

definition instance_records :: "ServiceID \<Rightarrow> ServiceInfo list \<Rightarrow> ServiceInfo list" where
  "instance_records sid dump = filter (\<lambda>csn. instance_of sid csn \<noteq> None) dump"

definition instances :: "ServiceID \<Rightarrow> ServiceInfo list \<Rightarrow> NodeService list" where
  "instances sid dump = List.map_filter (instance_of sid) dump"

definition gateway_addresses ::
  "(string \<Rightarrow> string \<Rightarrow> string \<Rightarrow> EnterpriseMeta \<Rightarrow> string) \<Rightarrow> RuntimeConfig \<Rightarrow> string \<Rightarrow>
     ServiceID \<Rightarrow> ServiceInfo \<Rightarrow> string list" where
  "gateway_addresses f cfg dc sid csn =
     (case GatewayService csn of
        None \<Rightarrow> []
      | Some gwsvc \<Rightarrow>
          if ToServiceID (Service_gw gwsvc) = sid
          then Addresses_gw gwsvc (dnsAddresses_of f cfg dc gwsvc) else [])"

definition proxy_destinations :: "NodeService list \<Rightarrow> string list" where
  "proxy_destinations svcs =
     map (\<lambda>svc. DestinationServiceName (Proxy svc))
       (filter (\<lambda>svc. Kind_svc svc = ServiceKindConnectProxy) svcs)"

definition external_sources :: "NodeService list \<Rightarrow> string list" where
  "external_sources svcs =
     filter (\<lambda>v. v \<noteq> '''') (map (\<lambda>svc. meta_get (Meta svc) metaExternalSource) svcs)"

definition count_status :: "string \<Rightarrow> ServiceInfo list \<Rightarrow> int" where
  "count_status status recs =
     int (length (filter (\<lambda>check. Status check = status) (concat (map Checks recs))))"

text \<open>The kind of the last instance, \<open>k\<close> when there is none.\<close>

definition last_kind :: "string \<Rightarrow> NodeService list \<Rightarrow> string" where
  "last_kind k svcs = (if svcs = [] then k else Kind_svc (last svcs))"

text \<open>The ServiceID under which a summary was collected.\<close>

definition sid_of :: "ServiceSummary \<Rightarrow> ServiceID" where
  "sid_of s = \<lparr>ID = Name s, EnterpriseMeta_sid = EnterpriseMeta s\<rparr>"

text \<open>A record touches a ServiceID when its gateway association or its instance resolves
  to it.\<close>

definition touches :: "ServiceID \<Rightarrow> ServiceInfo \<Rightarrow> bool" where
  "touches sid csn \<longleftrightarrow>
     (\<exists>gw. GatewayService csn = Some gw \<and> ToServiceID (Service_gw gw) = sid) \<or>
     (\<exists>svc. Service_csn csn = Some svc \<and>
            NewServiceID (Service svc) (EnterpriseMeta_svc svc) = sid)"

section \<open>The scan seen from one key\<close>

text \<open>
  \<open>key_record\<close> and \<open>key_scan\<close> run, on one summary, the statements of the scan that concern
  the key \<open>sid\<close>; \<open>vsum\<close> is the summary the state holds for a key, the fresh one when the
  key has not been seen. \<open>sum_inv\<close> relates the internal sets to the slices they guard,
  and says that no slice is empty without being nil.
\<close>

definition key_record ::
  "(string \<Rightarrow> string \<Rightarrow> string \<Rightarrow> EnterpriseMeta \<Rightarrow> string) \<Rightarrow> RuntimeConfig \<Rightarrow> string \<Rightarrow>
     ServiceID \<Rightarrow> ServiceSummary \<Rightarrow> ServiceInfo \<Rightarrow> panic + ServiceSummary" where
  "key_record f cfg dc sid s csn =
     (case (case GatewayService csn of
              None \<Rightarrow> Inr s
            | Some gwsvc \<Rightarrow>
                if ToServiceID (Service_gw gwsvc) = sid
                then modifySummaryForGatewayService f cfg dc s gwsvc else Inr s) of
        Inl e \<Rightarrow> Inl e
      | Inr s1 \<Rightarrow>
          (case Service_csn csn of
             None \<Rightarrow> Inr s1
           | Some svc \<Rightarrow>
               if NewServiceID (Service svc) (EnterpriseMeta_svc svc) = sid
               then add_instance s1 csn svc else Inr s1))"

fun key_scan ::
  "(string \<Rightarrow> string \<Rightarrow> string \<Rightarrow> EnterpriseMeta \<Rightarrow> string) \<Rightarrow> RuntimeConfig \<Rightarrow> string \<Rightarrow>
     ServiceID \<Rightarrow> ServiceSummary \<Rightarrow> ServiceInfo list \<Rightarrow> panic + ServiceSummary" where
  "key_scan f cfg dc sid s [] = Inr s"
| "key_scan f cfg dc sid s (csn # dump) =
     (case key_record f cfg dc sid s csn of
        Inl e \<Rightarrow> Inl e
      | Inr s1 \<Rightarrow> key_scan f cfg dc sid s1 dump)"

definition vsum :: "agg_state \<Rightarrow> ServiceID \<Rightarrow> ServiceSummary" where
  "vsum st sid = (case summary st sid of None \<Rightarrow> new_summary sid | Some s \<Rightarrow> s)"

definition st_inv :: "agg_state \<Rightarrow> bool" where
  "st_inv st \<longleftrightarrow> distinct (services st) \<and> set (services st) = dom (summary st)"

definition keys :: "string_set \<Rightarrow> string set" where
  "keys m = (case m of None \<Rightarrow> {} | Some S \<Rightarrow> S)"

definition sum_inv :: "ServiceSummary \<Rightarrow> bool" where
  "sum_inv s \<longleftrightarrow>
     keys (proxyForSet s) = set (elems (ProxyFor s)) \<and>
     keys (externalSourceSet s) = set (elems (ExternalSources s)) \<and>
     keys (addressesSet (GatewayConfig s)) = set (elems (Addresses (GatewayConfig s))) \<and>
     Tags s \<noteq> Some [] \<and> Nodes s \<noteq> Some [] \<and> ProxyFor s \<noteq> Some [] \<and>
     ExternalSources s \<noteq> Some [] \<and> Addresses (GatewayConfig s) \<noteq> Some []"

definition extends_by ::
  "(string \<Rightarrow> string \<Rightarrow> string \<Rightarrow> EnterpriseMeta \<Rightarrow> string) \<Rightarrow> RuntimeConfig \<Rightarrow> string \<Rightarrow>
     ServiceID \<Rightarrow> ServiceSummary \<Rightarrow> ServiceInfo list \<Rightarrow> ServiceSummary \<Rightarrow> bool" where
  "extends_by f cfg dc sid s recs s' \<longleftrightarrow>
     sum_inv s' \<and>
     Name s' = Name s \<and>
     EnterpriseMeta s' = EnterpriseMeta s \<and>
     elems (Addresses (GatewayConfig s')) =
       first_seen_into (elems (Addresses (GatewayConfig s)))
         (concat (map (gateway_addresses f cfg dc sid) recs)) \<and>
     Kind s' = last_kind (Kind s) (instances sid recs) \<and>
     InstanceCount s' = InstanceCount s + int (length (instance_records sid recs)) \<and>
     elems (Nodes s') =
       elems (Nodes s) @ map (\<lambda>r. Node (Node_csn r)) (instance_records sid recs) \<and>
     elems (Tags s') =
       first_seen_into (elems (Tags s)) (concat (map Tags_svc (instances sid recs))) \<and>
     elems (ProxyFor s') =
       first_seen_into (elems (ProxyFor s)) (proxy_destinations (instances sid recs)) \<and>
     elems (ExternalSources s') =
       first_seen_into (elems (ExternalSources s)) (external_sources (instances sid recs)) \<and>
     ChecksPassing s' = ChecksPassing s + count_status HealthPassing (instance_records sid recs) \<and>
     ChecksWarning s' = ChecksWarning s + count_status HealthWarning (instance_records sid recs) \<and>
     ChecksCritical s' =
       ChecksCritical s + count_status HealthCritical (instance_records sid recs)"

section \<open>Example inputs\<close>

text \<open>Scenario A: three instances of \<open>web\<close> on the nodes n1, n2 and n1 again.\<close>

definition ex_entMeta :: EnterpriseMeta where
  "ex_entMeta = \<lparr>Partition = ''default'', Namespace = ''default''\<rparr>"

definition ex_service :: "string \<Rightarrow> string \<Rightarrow> string list \<Rightarrow> (string \<rightharpoonup> string) \<Rightarrow> NodeService" where
  "ex_service name kind tags meta =
     \<lparr>Kind_svc = kind, Service = name, Tags_svc = tags, Meta = meta,
      Proxy = \<lparr>DestinationServiceName = (if kind = '''' then '''' else ''web'')\<rparr>,
      EnterpriseMeta_svc = ex_entMeta\<rparr>"

definition ex_record :: "string \<Rightarrow> NodeService \<Rightarrow> string list \<Rightarrow> ServiceInfo" where
  "ex_record node svc statuses =
     \<lparr>Node_csn = \<lparr>Node = node\<rparr>, Service_csn = Some svc,
      Checks = map (\<lambda>status. \<lparr>Status = status\<rparr>) statuses, GatewayService = None\<rparr>"

definition scenario_A :: "ServiceInfo list" where
  "scenario_A =
     [ex_record ''n1'' (ex_service ''web'' '''' [''a'', ''b''] Map.empty) [],
      ex_record ''n2'' (ex_service ''web'' '''' [''a'', ''b''] Map.empty) [],
      ex_record ''n1'' (ex_service ''web'' '''' [''b'', ''c''] Map.empty) []]"

definition scenario_A_summary :: ServiceSummary where
  "scenario_A_summary =
     \<lparr>Kind = '''', Name = ''web'', Tags = Some [''a'', ''b'', ''c''],
      Nodes = Some [''n1'', ''n1'', ''n2''], InstanceCount = 3,
      ProxyFor = None, proxyForSet = None,
      ChecksPassing = 0, ChecksWarning = 0, ChecksCritical = 0,
      ExternalSources = None, externalSourceSet = None,
      GatewayConfig = \<lparr>Addresses = None, addressesSet = None\<rparr>,
      EnterpriseMeta = ex_entMeta\<rparr>"

text \<open>
  A dump with two gateway-association-only records for the service \<open>api\<close> and three
  instances of \<open>web-proxy\<close>, the first two of kind connect-proxy and synced from an
  external source, the last one of the typical kind (the empty string).
\<close>

definition ex_serviceIngressDNSName :: "string \<Rightarrow> string \<Rightarrow> string \<Rightarrow> EnterpriseMeta \<Rightarrow> string" where
  "ex_serviceIngressDNSName service datacenter domain entMeta =
     service @ ''.ingress.'' @ datacenter @ ''.'' @ domain"

definition ex_cfg :: RuntimeConfig where
  "ex_cfg = \<lparr>DNSDomain = ''consul'', DNSAltDomain = ''''\<rparr>"

definition ex_gateway :: ServiceInfo where
  "ex_gateway =
     \<lparr>Node_csn = \<lparr>Node = ''''\<rparr>, Service_csn = None, Checks = [],
      GatewayService =
        Some \<lparr>Service_gw = \<lparr>Name_sn = ''api'', EnterpriseMeta_sn = ex_entMeta\<rparr>,
              Addresses_gw = (\<lambda>dnsAddresses. dnsAddresses @ [''10.0.0.1:8443''])\<rparr>\<rparr>"

definition ex_dump :: "ServiceInfo list" where
  "ex_dump =
     [ex_record ''n2''
        (ex_service ''web-proxy'' ''connect-proxy'' [''v1'']
           [''external-source'' \<mapsto> ''kubernetes'']) [''passing''],
      ex_gateway,
      ex_record ''n1''
        (ex_service ''web-proxy'' ''connect-proxy'' [''v2'', ''v1'']
           [''external-source'' \<mapsto> ''kubernetes'']) [''warning'', ''maintenance''],
      ex_gateway,
      ex_record ''n1'' (ex_service ''web-proxy'' '''' [] Map.empty) [''passing'']]"

definition ex_api_summary :: ServiceSummary where
  "ex_api_summary =
     \<lparr>Kind = '''', Name = ''api'', Tags = None, Nodes = None, InstanceCount = 0,
      ProxyFor = None, proxyForSet = None,
      ChecksPassing = 0, ChecksWarning = 0, ChecksCritical = 0,
      ExternalSources = None, externalSourceSet = None,
      GatewayConfig =
        \<lparr>Addresses = Some [''api.ingress.dc1.consul'', ''10.0.0.1:8443''],
         addressesSet = Some {''api.ingress.dc1.consul'', ''10.0.0.1:8443''}\<rparr>,
      EnterpriseMeta = ex_entMeta\<rparr>"

definition ex_proxy_summary :: ServiceSummary where
  "ex_proxy_summary =
     \<lparr>Kind = '''', Name = ''web-proxy'', Tags = Some [''v1'', ''v2''],
      Nodes = Some [''n1'', ''n1'', ''n2''], InstanceCount = 3,
      ProxyFor = Some [''web''], proxyForSet = Some {''web''},
      ChecksPassing = 2, ChecksWarning = 1, ChecksCritical = 0,
      ExternalSources = Some [''kubernetes''], externalSourceSet = Some {''kubernetes''},
      GatewayConfig = \<lparr>Addresses = None, addressesSet = None\<rparr>,
      EnterpriseMeta = ex_entMeta\<rparr>"

definition ex_em_json :: "EnterpriseMeta \<Rightarrow> (string \<times> json) list" where
  "ex_em_json entMeta =
     [(''Partition'', JString (Partition entMeta)), (''Namespace'', JString (Namespace entMeta))]"

section \<open>The scan never panics\<close>

lemma tag_found_iff: "tag_found xs t \<longleftrightarrow> t \<in> set xs"
  by (induction xs) auto

lemma add_addresses_total: "\<exists>s'. add_addresses s addrs = Inr s'"
  by (induction addrs arbitrary: s) (auto simp: Let_def set_key_def split: option.splits)

lemma modify_total: "\<exists>s'. modifySummaryForGatewayService f cfg dc s gw = Inr s'"
  by (simp add: modifySummaryForGatewayService_def add_addresses_total)

lemma add_proxyFor_total: "\<exists>s'. add_proxyFor s svc = Inr s'"
  by (auto simp: add_proxyFor_def Let_def set_key_def split: option.splits)

lemma add_externalSource_total: "\<exists>s'. add_externalSource s svc = Inr s'"
  by (auto simp: add_externalSource_def Let_def set_key_def split: option.splits)

lemma add_instance_total: "\<exists>s'. add_instance s csn svc = Inr s'"
proof -
  obtain s4 where a: "add_proxyFor (s\<lparr>Nodes := append_slice (Nodes s) (Node (Node_csn csn)),
      Kind := Kind_svc svc, InstanceCount := InstanceCount s + 1\<rparr>) svc = Inr s4"
    using add_proxyFor_total by blast
  obtain s5 where b: "add_externalSource (add_tags s4 (Tags_svc svc)) svc = Inr s5"
    using add_externalSource_total by blast
  show ?thesis by (simp add: add_instance_def Let_def a b)
qed

lemma scan_gateway_total: "\<exists>st'. scan_gateway f cfg dc st csn = Inr st'"
proof (cases "GatewayService csn")
  case None
  then show ?thesis by (simp add: scan_gateway_def)
next
  case (Some gw)
  obtain sm st1 where g: "getService st (ToServiceID (Service_gw gw)) = (sm, st1)"
    by (cases "getService st (ToServiceID (Service_gw gw))")
  obtain s' where m: "modifySummaryForGatewayService f cfg dc sm gw = Inr s'"
    using modify_total by blast
  show ?thesis by (simp add: scan_gateway_def Some g m)
qed

lemma scan_instance_total: "\<exists>st'. scan_instance st csn = Inr st'"
proof (cases "Service_csn csn")
  case None
  then show ?thesis by (simp add: scan_instance_def)
next
  case (Some svc)
  obtain sm st1 where g: "getService st (NewServiceID (Service svc) (EnterpriseMeta_svc svc)) = (sm, st1)"
    by (cases "getService st (NewServiceID (Service svc) (EnterpriseMeta_svc svc))")
  obtain s' where m: "add_instance sm csn svc = Inr s'"
    using add_instance_total by blast
  show ?thesis by (simp add: scan_instance_def Some g m Let_def)
qed

lemma scan_record_total: "\<exists>st'. scan_record f cfg dc st csn = Inr st'"
proof -
  obtain st1 where a: "scan_gateway f cfg dc st csn = Inr st1"
    using scan_gateway_total by blast
  obtain st2 where b: "scan_instance st1 csn = Inr st2"
    using scan_instance_total by blast
  show ?thesis by (simp add: scan_record_def a b)
qed

lemma scan_total: "\<exists>st'. scan f cfg dc st dump = Inr st'"
proof (induction dump arbitrary: st)
  case Nil
  show ?case by simp
next
  case (Cons csn dump)
  obtain st1 where a: "scan_record f cfg dc st csn = Inr st1"
    using scan_record_total by blast
  from Cons[of st1] show ?case by (simp add: a)
qed

section \<open>The state seen from one key\<close>

lemma getService_inv:
  "getService st sid = (sm, st1) \<Longrightarrow> st_inv st \<Longrightarrow>
     st_inv st1 \<and> summary st1 sid = Some sm \<and> sm = vsum st sid \<and>
     (\<forall>k. k \<noteq> sid \<longrightarrow> summary st1 k = summary st k)"
  by (auto simp: getService_def st_inv_def vsum_def Let_def split: option.splits)

lemma put_summary_inv:
  "st_inv st \<Longrightarrow> summary st sid \<noteq> None \<Longrightarrow>
     st_inv (put_summary st sid sm) \<and> summary (put_summary st sid sm) sid = Some sm \<and>
     (\<forall>k. k \<noteq> sid \<longrightarrow> summary (put_summary st sid sm) k = summary st k)"
  by (auto simp: put_summary_def st_inv_def)

lemma scan_gateway_view:
  assumes "scan_gateway f cfg dc st csn = Inr st'" and "st_inv st"
  shows "st_inv st'"
    and "(case GatewayService csn of
            None \<Rightarrow> Inr (vsum st sid)
          | Some gwsvc \<Rightarrow>
              if ToServiceID (Service_gw gwsvc) = sid
              then modifySummaryForGatewayService f cfg dc (vsum st sid) gwsvc
              else Inr (vsum st sid)) = Inr (vsum st' sid)"
    and "summary st' sid \<noteq> None \<longleftrightarrow> summary st sid \<noteq> None \<or>
           (\<exists>gw. GatewayService csn = Some gw \<and> ToServiceID (Service_gw gw) = sid)"
proof -
  show "st_inv st'" 
  proof (cases "GatewayService csn")
    case None
    with assms show ?thesis by (simp add: scan_gateway_def)
  next
    case (Some gw)
    obtain sm st1 where g: "getService st (ToServiceID (Service_gw gw)) = (sm, st1)"
      by (cases "getService st (ToServiceID (Service_gw gw))")
    from getService_inv[OF g assms(2)] assms(1) Some g show ?thesis
      by (auto simp: scan_gateway_def put_summary_inv split: sum.splits)
  qed
  show "(case GatewayService csn of
            None \<Rightarrow> Inr (vsum st sid)
          | Some gwsvc \<Rightarrow>
              if ToServiceID (Service_gw gwsvc) = sid
              then modifySummaryForGatewayService f cfg dc (vsum st sid) gwsvc
              else Inr (vsum st sid)) = Inr (vsum st' sid)"
  proof (cases "GatewayService csn")
    case None
    with assms show ?thesis by (simp add: scan_gateway_def)
  next
    case (Some gw)
    obtain sm st1 where g: "getService st (ToServiceID (Service_gw gw)) = (sm, st1)"
      by (cases "getService st (ToServiceID (Service_gw gw))")
    from getService_inv[OF g assms(2)] assms(1) Some g show ?thesis
      by (auto simp: scan_gateway_def put_summary_inv vsum_def split: sum.splits)
  qed
  show "summary st' sid \<noteq> None \<longleftrightarrow> summary st sid \<noteq> None \<or>
           (\<exists>gw. GatewayService csn = Some gw \<and> ToServiceID (Service_gw gw) = sid)"
  proof (cases "GatewayService csn")
    case None
    with assms show ?thesis by (simp add: scan_gateway_def)
  next
    case (Some gw)
    obtain sm st1 where g: "getService st (ToServiceID (Service_gw gw)) = (sm, st1)"
      by (cases "getService st (ToServiceID (Service_gw gw))")
    from getService_inv[OF g assms(2)] assms(1) Some g show ?thesis
      by (cases "sid = ToServiceID (Service_gw gw)")
         (auto simp: scan_gateway_def put_summary_inv split: sum.splits)
  qed
qed

lemma scan_instance_view:
  assumes "scan_instance st csn = Inr st'" and "st_inv st"
  shows "st_inv st'"
    and "(case Service_csn csn of
            None \<Rightarrow> Inr (vsum st sid)
          | Some svc \<Rightarrow>
              if NewServiceID (Service svc) (EnterpriseMeta_svc svc) = sid
              then add_instance (vsum st sid) csn svc
              else Inr (vsum st sid)) = Inr (vsum st' sid)"
    and "summary st' sid \<noteq> None \<longleftrightarrow> summary st sid \<noteq> None \<or>
           (\<exists>svc. Service_csn csn = Some svc \<and>
                  NewServiceID (Service svc) (EnterpriseMeta_svc svc) = sid)"
proof -
  have "st_inv st' \<and>
    (case Service_csn csn of
            None \<Rightarrow> Inr (vsum st sid)
          | Some svc \<Rightarrow>
              if NewServiceID (Service svc) (EnterpriseMeta_svc svc) = sid
              then add_instance (vsum st sid) csn svc
              else Inr (vsum st sid)) = Inr (vsum st' sid) \<and>
    (summary st' sid \<noteq> None \<longleftrightarrow> summary st sid \<noteq> None \<or>
           (\<exists>svc. Service_csn csn = Some svc \<and>
                  NewServiceID (Service svc) (EnterpriseMeta_svc svc) = sid))"
  proof (cases "Service_csn csn")
    case None
    with assms show ?thesis by (simp add: scan_instance_def)
  next
    case (Some svc)
    obtain sm st1 where g: "getService st (NewServiceID (Service svc) (EnterpriseMeta_svc svc)) = (sm, st1)"
      by (cases "getService st (NewServiceID (Service svc) (EnterpriseMeta_svc svc))")
    from getService_inv[OF g assms(2)] assms(1) Some g show ?thesis
      by (cases "sid = NewServiceID (Service svc) (EnterpriseMeta_svc svc)")
         (auto simp: scan_instance_def put_summary_inv vsum_def Let_def split: sum.splits)
  qed
  then show "st_inv st'"
    and "(case Service_csn csn of
            None \<Rightarrow> Inr (vsum st sid)
          | Some svc \<Rightarrow>
              if NewServiceID (Service svc) (EnterpriseMeta_svc svc) = sid
              then add_instance (vsum st sid) csn svc
              else Inr (vsum st sid)) = Inr (vsum st' sid)"
    and "summary st' sid \<noteq> None \<longleftrightarrow> summary st sid \<noteq> None \<or>
           (\<exists>svc. Service_csn csn = Some svc \<and>
                  NewServiceID (Service svc) (EnterpriseMeta_svc svc) = sid)"
    by blast+
qed

lemma scan_record_view:
  assumes "scan_record f cfg dc st csn = Inr st'" and "st_inv st"
  shows "st_inv st'"
    and "key_record f cfg dc sid (vsum st sid) csn = Inr (vsum st' sid)"
    and "summary st' sid \<noteq> None \<longleftrightarrow> summary st sid \<noteq> None \<or> touches sid csn"
proof -
  from assms(1) obtain st1 where a: "scan_gateway f cfg dc st csn = Inr st1"
    and b: "scan_instance st1 csn = Inr st'"
    by (auto simp: scan_record_def split: sum.splits)
  note g = scan_gateway_view[OF a assms(2)]
  note i = scan_instance_view[OF b g(1)]
  show "st_inv st'" by (rule i(1))
  show "key_record f cfg dc sid (vsum st sid) csn = Inr (vsum st' sid)"
    unfolding key_record_def using g(2)[of sid] i(2)[of sid] by simp
  show "summary st' sid \<noteq> None \<longleftrightarrow> summary st sid \<noteq> None \<or> touches sid csn"
    unfolding touches_def using g(3)[of sid] i(3)[of sid] by blast
qed

lemma scan_view:
  "scan f cfg dc st dump = Inr st' \<Longrightarrow> st_inv st \<Longrightarrow>
     st_inv st' \<and> key_scan f cfg dc sid (vsum st sid) dump = Inr (vsum st' sid) \<and>
     (summary st' sid \<noteq> None \<longleftrightarrow> summary st sid \<noteq> None \<or> (\<exists>csn\<in>set dump. touches sid csn))"
proof (induction dump arbitrary: st)
  case Nil
  then show ?case by simp
next
  case (Cons csn dump)
  from Cons.prems(1) obtain st1 where a: "scan_record f cfg dc st csn = Inr st1"
    and b: "scan f cfg dc st1 dump = Inr st'"
    by (auto split: sum.splits)
  note r = scan_record_view[OF a Cons.prems(2)]
  from Cons.IH[OF b r(1)] r(2)[of sid] r(3)[of sid] show ?case
    by auto
qed

lemma st_inv_init: "st_inv \<lparr>services = [], summary = Map.empty\<rparr>"
  by (simp add: st_inv_def)

lemma vsum_init: "vsum \<lparr>services = [], summary = Map.empty\<rparr> sid = new_summary sid"
  by (simp add: vsum_def)

lemma fill_output_eq:
  "idx + length xs \<le> length out \<Longrightarrow> \<forall>x\<in>set xs. summ x \<noteq> None \<Longrightarrow>
     fill_output summ idx xs out =
       Inr (take idx out @ map (\<lambda>sid. Some (sort_summary (the (summ sid)))) xs
            @ drop (idx + length xs) out)"
proof (induction xs arbitrary: idx out)
  case Nil
  then show ?case by simp
next
  case (Cons x xs)
  from Cons.prems obtain sm where sm: "summ x = Some sm" by auto
  have i: "idx < length out" using Cons.prems by simp
  have l: "Suc idx + length xs \<le> length (out[idx := Some (sort_summary sm)])"
    using Cons.prems by simp
  have r: "\<forall>x\<in>set xs. summ x \<noteq> None" using Cons.prems by simp
  have t: "take (Suc idx) (out[idx := Some (sort_summary sm)]) = take idx out @ [Some (sort_summary sm)]"
    using i by (simp add: take_Suc_conv_app_nth)
  show ?case
    using Cons.IH[OF l r] i by (simp add: sm t)
qed

section \<open>The effect of a record on a summary\<close>

lemma first_seen_into_append:
  "first_seen_into acc (xs @ ys) = first_seen_into (first_seen_into acc xs) ys"
  by (induction xs arbitrary: acc) auto

lemma set_first_seen_into: "set (first_seen_into acc xs) = set acc \<union> set xs"
  by (induction xs arbitrary: acc) auto

lemma distinct_first_seen_into: "distinct acc \<Longrightarrow> distinct (first_seen_into acc xs)"
  by (induction xs arbitrary: acc) auto

lemma has_key_keys: "has_key m k \<longleftrightarrow> k \<in> keys m"
  by (simp add: has_key_def keys_def split: option.splits)

lemma elems_append_slice: "elems (append_slice sl x) = elems sl @ [x]"
  by (simp add: append_slice_def elems_def)

lemma append_slice_nonempty: "append_slice sl x \<noteq> Some []"
  by (simp add: append_slice_def)

lemma new_summary_inv: "sum_inv (new_summary sid)"
  by (simp add: sum_inv_def new_summary_def keys_def elems_def)

lemma add_addresses_step:
  "add_addresses s (addr # rest) =
     add_addresses
       (if addr \<in> keys (addressesSet (GatewayConfig s)) then s
        else s\<lparr>GatewayConfig := (GatewayConfig s)
               \<lparr>addressesSet := Some (insert addr (keys (addressesSet (GatewayConfig s)))),
                Addresses := append_slice (Addresses (GatewayConfig s)) addr\<rparr>\<rparr>) rest"
  by (simp add: has_key_keys set_key_def keys_def Let_def split: option.splits)

lemma add_addresses_effect:
  "add_addresses s addrs = Inr s' \<Longrightarrow> sum_inv s \<Longrightarrow>
     s' = s\<lparr>GatewayConfig := GatewayConfig s'\<rparr> \<and> sum_inv s' \<and>
     elems (Addresses (GatewayConfig s')) =
       first_seen_into (elems (Addresses (GatewayConfig s))) addrs"
proof (induction addrs arbitrary: s)
  case Nil
  then show ?case by simp
next
  case (Cons addr rest)
  show ?case
  proof (cases "addr \<in> set (elems (Addresses (GatewayConfig s)))")
    case True
    with Cons.prems have "add_addresses s rest = Inr s'"
      unfolding add_addresses_step by (simp add: sum_inv_def)
    from Cons.IH[OF this Cons.prems(2)] True show ?thesis by simp
  next
    case False
    define s1 where "s1 = s\<lparr>GatewayConfig := (GatewayConfig s)
        \<lparr>addressesSet := Some (insert addr (keys (addressesSet (GatewayConfig s)))),
         Addresses := append_slice (Addresses (GatewayConfig s)) addr\<rparr>\<rparr>"
    from False Cons.prems have r: "add_addresses s1 rest = Inr s'"
      unfolding add_addresses_step s1_def by (simp add: sum_inv_def)
    have i: "sum_inv s1" using Cons.prems(2)
      by (simp add: sum_inv_def s1_def keys_def elems_append_slice append_slice_nonempty)
    have g: "s1\<lparr>GatewayConfig := GatewayConfig s'\<rparr> = s\<lparr>GatewayConfig := GatewayConfig s'\<rparr>"
      by (simp add: s1_def)
    have e: "elems (Addresses (GatewayConfig s1)) = elems (Addresses (GatewayConfig s)) @ [addr]"
      by (simp add: s1_def elems_append_slice)
    from Cons.IH[OF r i] False show ?thesis
      unfolding g e by simp
  qed
qed

lemma modify_effect:
  "modifySummaryForGatewayService f cfg dc s gw = Inr s' \<Longrightarrow> sum_inv s \<Longrightarrow>
     s' = s\<lparr>GatewayConfig := GatewayConfig s'\<rparr> \<and> sum_inv s' \<and>
     elems (Addresses (GatewayConfig s')) =
       first_seen_into (elems (Addresses (GatewayConfig s)))
         (Addresses_gw gw (dnsAddresses_of f cfg dc gw))"
  unfolding modifySummaryForGatewayService_def by (rule add_addresses_effect)

lemma add_proxyFor_eq:
  "add_proxyFor s svc =
     Inr (if Kind_svc svc = ServiceKindConnectProxy \<and>
             DestinationServiceName (Proxy svc) \<notin> keys (proxyForSet s)
          then s\<lparr>proxyForSet :=
                   Some (insert (DestinationServiceName (Proxy svc)) (keys (proxyForSet s))),
                 ProxyFor := append_slice (ProxyFor s) (DestinationServiceName (Proxy svc))\<rparr>
          else s)"
  by (simp add: add_proxyFor_def has_key_keys set_key_def keys_def Let_def split: option.splits)

lemma add_proxyFor_effect:
  assumes "add_proxyFor s svc = Inr s'" and "sum_inv s"
  shows "s' = s\<lparr>ProxyFor := ProxyFor s', proxyForSet := proxyForSet s'\<rparr>"
    and "sum_inv s'"
    and "elems (ProxyFor s') = first_seen_into (elems (ProxyFor s)) (proxy_destinations [svc])"
proof -
  let ?d = "DestinationServiceName (Proxy svc)"
  show "s' = s\<lparr>ProxyFor := ProxyFor s', proxyForSet := proxyForSet s'\<rparr>"
    using assms(1) unfolding add_proxyFor_eq by (auto split: if_splits)
  show "sum_inv s'"
    using assms unfolding add_proxyFor_eq
    by (auto simp: sum_inv_def keys_def elems_append_slice append_slice_nonempty split: if_splits)
  show "elems (ProxyFor s') = first_seen_into (elems (ProxyFor s)) (proxy_destinations [svc])"
    using assms unfolding add_proxyFor_eq
    by (auto simp: sum_inv_def proxy_destinations_def elems_append_slice split: if_splits)
qed

lemma meta_get_empty: "meta_get Map.empty k = []"
  by (simp add: meta_get_def)

lemma add_externalSource_eq:
  "add_externalSource s svc =
     Inr (if meta_get (Meta svc) metaExternalSource \<noteq> [] then
            (if meta_get (Meta svc) metaExternalSource \<notin> keys (externalSourceSet s)
             then s\<lparr>externalSourceSet :=
                      Some (insert (meta_get (Meta svc) metaExternalSource)
                              (keys (externalSourceSet s))),
                    ExternalSources :=
                      append_slice (ExternalSources s) (meta_get (Meta svc) metaExternalSource)\<rparr>
             else (if externalSourceSet s = None then s\<lparr>externalSourceSet := Some {}\<rparr> else s))
          else s)"
  by (cases "Meta svc = Map.empty")
     (simp_all add: add_externalSource_def has_key_keys set_key_def keys_def Let_def meta_get_empty
        split: option.splits)

lemma add_externalSource_effect:
  assumes "add_externalSource s svc = Inr s'" and "sum_inv s"
  shows "s' = s\<lparr>ExternalSources := ExternalSources s', externalSourceSet := externalSourceSet s'\<rparr>"
    and "sum_inv s'"
    and "elems (ExternalSources s') =
       first_seen_into (elems (ExternalSources s)) (external_sources [svc])"
proof -
  show "s' = s\<lparr>ExternalSources := ExternalSources s', externalSourceSet := externalSourceSet s'\<rparr>"
    using assms(1) unfolding add_externalSource_eq by (auto split: if_splits)
  show "sum_inv s'"
    using assms unfolding add_externalSource_eq
    by (auto simp: sum_inv_def keys_def elems_append_slice append_slice_nonempty split: if_splits)
  show "elems (ExternalSources s') =
       first_seen_into (elems (ExternalSources s)) (external_sources [svc])"
    using assms unfolding add_externalSource_eq
    by (auto simp: sum_inv_def external_sources_def elems_append_slice split: if_splits)
qed

lemma add_tags_effect:
  "sum_inv s \<Longrightarrow>
     add_tags s tags = s\<lparr>Tags := Tags (add_tags s tags)\<rparr> \<and> sum_inv (add_tags s tags) \<and>
     elems (Tags (add_tags s tags)) = first_seen_into (elems (Tags s)) tags"
proof (induction tags arbitrary: s)
  case Nil
  then show ?case by simp
next
  case (Cons tag rest)
  show ?case
  proof (cases "tag \<in> set (elems (Tags s))")
    case True
    with Cons.IH[OF Cons.prems] show ?thesis by (simp add: tag_found_iff)
  next
    case False
    have i: "sum_inv (s\<lparr>Tags := append_slice (Tags s) tag\<rparr>)"
      using Cons.prems by (simp add: sum_inv_def append_slice_nonempty)
    from Cons.IH[OF i] False show ?thesis
      by (simp add: tag_found_iff elems_append_slice)
  qed
qed

lemma HealthStatus_distinct:
  "HealthPassing \<noteq> HealthWarning" "HealthPassing \<noteq> HealthCritical"
  "HealthWarning \<noteq> HealthCritical"
  by (simp_all add: HealthPassing_def HealthWarning_def HealthCritical_def)

lemma add_checks_effect:
  "add_checks s checks =
     s\<lparr>ChecksPassing := ChecksPassing s + int (length (filter (\<lambda>c. Status c = HealthPassing) checks)),
       ChecksWarning := ChecksWarning s + int (length (filter (\<lambda>c. Status c = HealthWarning) checks)),
       ChecksCritical := ChecksCritical s + int (length (filter (\<lambda>c. Status c = HealthCritical) checks))\<rparr>"
proof (induction checks arbitrary: s)
  case Nil
  show ?case by simp
next
  case (Cons c checks)
  show ?case using HealthStatus_distinct by (simp add: Cons.IH)
qed

lemma count_status_single:
  "count_status status [csn] = int (length (filter (\<lambda>c. Status c = status) (Checks csn)))"
  by (simp add: count_status_def)

lemma add_instance_effect:
  assumes "add_instance s csn svc = Inr s'" and "sum_inv s"
  shows "sum_inv s'"
    and "Name s' = Name s"
    and "EnterpriseMeta s' = EnterpriseMeta s"
    and "GatewayConfig s' = GatewayConfig s"
    and "Kind s' = Kind_svc svc"
    and "InstanceCount s' = InstanceCount s + 1"
    and "elems (Nodes s') = elems (Nodes s) @ [Node (Node_csn csn)]"
    and "elems (Tags s') = first_seen_into (elems (Tags s)) (Tags_svc svc)"
    and "elems (ProxyFor s') = first_seen_into (elems (ProxyFor s)) (proxy_destinations [svc])"
    and "elems (ExternalSources s') =
           first_seen_into (elems (ExternalSources s)) (external_sources [svc])"
    and "ChecksPassing s' = ChecksPassing s + count_status HealthPassing [csn]"
    and "ChecksWarning s' = ChecksWarning s + count_status HealthWarning [csn]"
    and "ChecksCritical s' = ChecksCritical s + count_status HealthCritical [csn]"
proof -
  define s3 where "s3 = s\<lparr>Nodes := append_slice (Nodes s) (Node (Node_csn csn)),
     Kind := Kind_svc svc, InstanceCount := InstanceCount s + 1\<rparr>"
  from assms(1) obtain s4 s5 where p: "add_proxyFor s3 svc = Inr s4"
    and e: "add_externalSource (add_tags s4 (Tags_svc svc)) svc = Inr s5"
    and c: "s' = add_checks s5 (Checks csn)"
    by (auto simp: add_instance_def Let_def s3_def split: sum.splits)
  define t where "t = add_tags s4 (Tags_svc svc)"
  have i3: "sum_inv s3"
    using assms(2) by (simp add: sum_inv_def s3_def append_slice_nonempty)
  note P = add_proxyFor_effect[OF p i3]
  from add_tags_effect[OF P(2), of "Tags_svc svc"]
  have T: "t = s4\<lparr>Tags := Tags t\<rparr>" "sum_inv t"
    "elems (Tags t) = first_seen_into (elems (Tags s4)) (Tags_svc svc)"
    by (simp_all add: t_def)
  note E = add_externalSource_effect[OF e[folded t_def] T(2)]
  note C = add_checks_effect[of s5 "Checks csn", folded c]
  show "sum_inv s'" using E(2) by (subst C) (simp add: sum_inv_def)
  show "Name s' = Name s"
    by (subst C, simp, subst E(1), simp, subst T(1), simp, subst P(1), simp add: s3_def)
  show "EnterpriseMeta s' = EnterpriseMeta s"
    by (subst C, simp, subst E(1), simp, subst T(1), simp, subst P(1), simp add: s3_def)
  show "GatewayConfig s' = GatewayConfig s"
    by (subst C, simp, subst E(1), simp, subst T(1), simp, subst P(1), simp add: s3_def)
  show "Kind s' = Kind_svc svc"
    by (subst C, simp, subst E(1), simp, subst T(1), simp, subst P(1), simp add: s3_def)
  show "InstanceCount s' = InstanceCount s + 1"
    by (subst C, simp, subst E(1), simp, subst T(1), simp, subst P(1), simp add: s3_def)
  have "Nodes s' = Nodes s3"
    by (subst C, simp, subst E(1), simp, subst T(1), simp, subst P(1), simp)
  then show "elems (Nodes s') = elems (Nodes s) @ [Node (Node_csn csn)]"
    by (simp add: s3_def elems_append_slice)
  have "Tags s' = Tags t" by (subst C, simp, subst E(1), simp)
  moreover have "Tags s4 = Tags s" by (subst P(1), simp add: s3_def)
  ultimately show "elems (Tags s') = first_seen_into (elems (Tags s)) (Tags_svc svc)"
    using T(3) by simp
  have "ProxyFor s' = ProxyFor s4" by (subst C, simp, subst E(1), simp, subst T(1), simp)
  then show "elems (ProxyFor s') = first_seen_into (elems (ProxyFor s)) (proxy_destinations [svc])"
    using P(3) by (simp add: s3_def)
  have "ExternalSources s' = ExternalSources s5" by (subst C, simp)
  moreover have "ExternalSources t = ExternalSources s"
    by (subst T(1), simp, subst P(1), simp add: s3_def)
  ultimately show "elems (ExternalSources s') =
           first_seen_into (elems (ExternalSources s)) (external_sources [svc])"
    using E(3) by simp
  have "ChecksPassing s5 = ChecksPassing s"
    by (subst E(1), simp, subst T(1), simp, subst P(1), simp add: s3_def)
  then show "ChecksPassing s' = ChecksPassing s + count_status HealthPassing [csn]"
    by (subst C) (simp add: count_status_single)
  have "ChecksWarning s5 = ChecksWarning s"
    by (subst E(1), simp, subst T(1), simp, subst P(1), simp add: s3_def)
  then show "ChecksWarning s' = ChecksWarning s + count_status HealthWarning [csn]"
    by (subst C) (simp add: count_status_single)
  have "ChecksCritical s5 = ChecksCritical s"
    by (subst E(1), simp, subst T(1), simp, subst P(1), simp add: s3_def)
  then show "ChecksCritical s' = ChecksCritical s + count_status HealthCritical [csn]"
    by (subst C) (simp add: count_status_single)
qed

lemma instance_records_Cons:
  "instance_records sid (csn # dump) = instance_records sid [csn] @ instance_records sid dump"
  by (simp add: instance_records_def)

lemma instances_Cons:
  "instances sid (csn # dump) = instances sid [csn] @ instances sid dump"
  by (simp add: instances_def List.map_filter_simps split: option.splits)

lemma instances_single:
  "instances sid [csn] = (case instance_of sid csn of None \<Rightarrow> [] | Some svc \<Rightarrow> [svc])"
  by (simp add: instances_def List.map_filter_simps split: option.splits)

lemma instance_records_single:
  "instance_records sid [csn] = (case instance_of sid csn of None \<Rightarrow> [] | Some svc \<Rightarrow> [csn])"
  by (simp add: instance_records_def split: option.splits)

lemma proxy_destinations_append:
  "proxy_destinations (xs @ ys) = proxy_destinations xs @ proxy_destinations ys"
  by (simp add: proxy_destinations_def)

lemma external_sources_append:
  "external_sources (xs @ ys) = external_sources xs @ external_sources ys"
  by (simp add: external_sources_def)

lemma count_status_append:
  "count_status status (xs @ ys) = count_status status xs + count_status status ys"
  by (simp add: count_status_def)

lemma last_kind_append: "last_kind k (xs @ ys) = last_kind (last_kind k xs) ys"
  by (simp add: last_kind_def)

lemma extends_by_Nil: "sum_inv s \<Longrightarrow> extends_by f cfg dc sid s [] s"
  by (simp add: extends_by_def instances_def instance_records_def List.map_filter_simps
        last_kind_def proxy_destinations_def external_sources_def count_status_def)

lemma instance_records_append:
  "instance_records sid (xs @ ys) = instance_records sid xs @ instance_records sid ys"
  by (simp add: instance_records_def)

lemma instances_append:
  "instances sid (xs @ ys) = instances sid xs @ instances sid ys"
  by (simp add: instances_def List.map_filter_def)

lemma extends_by_append:
  "extends_by f cfg dc sid s xs s1 \<Longrightarrow> extends_by f cfg dc sid s1 ys s' \<Longrightarrow>
     extends_by f cfg dc sid s (xs @ ys) s'"
  unfolding extends_by_def
  by (simp add: instance_records_append instances_append first_seen_into_append
        last_kind_append proxy_destinations_append external_sources_append count_status_append)

lemma extends_by_Cons:
  "extends_by f cfg dc sid s [csn] s1 \<Longrightarrow> extends_by f cfg dc sid s1 dump s' \<Longrightarrow>
     extends_by f cfg dc sid s (csn # dump) s'"
  using extends_by_append[of f cfg dc sid s "[csn]" s1 dump s'] by simp

lemma key_record_effect:
  assumes "key_record f cfg dc sid s csn = Inr s'" and "sum_inv s"
  shows "extends_by f cfg dc sid s [csn] s'"
proof -
  from assms(1) obtain s1 where
    g: "(case GatewayService csn of
              None \<Rightarrow> Inr s
            | Some gwsvc \<Rightarrow>
                if ToServiceID (Service_gw gwsvc) = sid
                then modifySummaryForGatewayService f cfg dc s gwsvc else Inr s) = Inr s1"
    and i: "(case Service_csn csn of
             None \<Rightarrow> Inr s1
           | Some svc \<Rightarrow>
               if NewServiceID (Service svc) (EnterpriseMeta_svc svc) = sid
               then add_instance s1 csn svc else Inr s1) = Inr s'"
    by (auto simp: key_record_def split: sum.splits)
  have G: "s1 = s\<lparr>GatewayConfig := GatewayConfig s1\<rparr> \<and> sum_inv s1 \<and>
     elems (Addresses (GatewayConfig s1)) =
       first_seen_into (elems (Addresses (GatewayConfig s))) (gateway_addresses f cfg dc sid csn)"
  proof (cases "GatewayService csn")
    case None
    with g assms(2) show ?thesis by (simp add: gateway_addresses_def)
  next
    case (Some gw)
    show ?thesis
    proof (cases "ToServiceID (Service_gw gw) = sid")
      case True
      with g Some have "modifySummaryForGatewayService f cfg dc s gw = Inr s1" by simp
      from modify_effect[OF this assms(2)] Some True show ?thesis
        by (simp add: gateway_addresses_def)
    next
      case False
      with g Some assms(2) show ?thesis by (simp add: gateway_addresses_def)
    qed
  qed
  then have G1: "s1 = s\<lparr>GatewayConfig := GatewayConfig s1\<rparr>" and G2: "sum_inv s1"
    and G3: "elems (Addresses (GatewayConfig s1)) =
       first_seen_into (elems (Addresses (GatewayConfig s))) (gateway_addresses f cfg dc sid csn)"
    by blast+
  have F: "Name s1 = Name s" "EnterpriseMeta s1 = EnterpriseMeta s" "Kind s1 = Kind s"
    "InstanceCount s1 = InstanceCount s" "Nodes s1 = Nodes s" "Tags s1 = Tags s"
    "ProxyFor s1 = ProxyFor s" "ExternalSources s1 = ExternalSources s"
    "ChecksPassing s1 = ChecksPassing s" "ChecksWarning s1 = ChecksWarning s"
    "ChecksCritical s1 = ChecksCritical s"
    by (subst G1, simp)+
  show ?thesis
  proof (cases "instance_of sid csn")
    case None
    then have "s' = s1" using i
      by (auto simp: instance_of_def split: option.splits if_splits)
    with None G2 G3 F show ?thesis
      by (simp add: extends_by_def instances_single instance_records_single last_kind_def
            proxy_destinations_def external_sources_def count_status_def)
  next
    case (Some svc)
    then have "add_instance s1 csn svc = Inr s'" using i
      by (auto simp: instance_of_def split: option.splits if_splits)
    note A = add_instance_effect[OF this G2]
    from Some A G3 F show ?thesis
      by (simp add: extends_by_def instances_single instance_records_single last_kind_def)
  qed
qed

lemma key_scan_effect:
  "key_scan f cfg dc sid s dump = Inr s' \<Longrightarrow> sum_inv s \<Longrightarrow> extends_by f cfg dc sid s dump s'"
proof (induction dump arbitrary: s)
  case Nil
  then show ?case by (simp add: extends_by_Nil)
next
  case (Cons csn dump)
  from Cons.prems(1) obtain s1 where a: "key_record f cfg dc sid s csn = Inr s1"
    and b: "key_scan f cfg dc sid s1 dump = Inr s'"
    by (auto split: sum.splits)
  note e = key_record_effect[OF a Cons.prems(2)]
  have "sum_inv s1" using e by (simp add: extends_by_def)
  from extends_by_Cons[OF e Cons.IH[OF b this]] show ?case .
qed

section \<open>Sorting the ServiceIDs\<close>

lemma set_insert_less: "set (insert_less lt x ys) = insert x (set ys)"
  by (induction ys) auto

lemma set_sort_Slice: "set (sort_Slice lt xs) = set xs"
  by (induction xs) (simp_all add: sort_Slice_def set_insert_less)

lemma length_insert_less: "length (insert_less lt x ys) = Suc (length ys)"
  by (induction ys) auto

lemma length_sort_Slice: "length (sort_Slice lt xs) = length xs"
  by (induction xs) (simp_all add: sort_Slice_def length_insert_less)

lemma distinct_insert_less: "distinct ys \<Longrightarrow> x \<notin> set ys \<Longrightarrow> distinct (insert_less lt x ys)"
  by (induction ys) (auto simp: set_insert_less)

lemma distinct_sort_Slice: "distinct xs \<Longrightarrow> distinct (sort_Slice lt xs)"
proof (induction xs)
  case Nil
  show ?case by (simp add: sort_Slice_def)
next
  case (Cons x xs)
  then have "distinct (insert_less lt x (sort_Slice lt xs))"
    by (intro distinct_insert_less) (simp_all add: set_sort_Slice)
  then show ?case by (simp add: sort_Slice_def)
qed

lemma LessThan_irrefl: "\<not> LessThan a a"
  by (simp add: LessThan_def)

lemma LessThan_trans: "LessThan a b \<Longrightarrow> LessThan b c \<Longrightarrow> LessThan a c"
  unfolding LessThan_def by (elim disjE conjE) (simp_all, (blast intro: less_trans)+)

lemma LessThan_total: "LessThan a b \<or> a = b \<or> LessThan b a"
proof -
  have "a = b \<longleftrightarrow> ID a = ID b \<and> Partition (EnterpriseMeta_sid a) = Partition (EnterpriseMeta_sid b)
     \<and> Namespace (EnterpriseMeta_sid a) = Namespace (EnterpriseMeta_sid b)"
    by (cases a, cases b, cases "EnterpriseMeta_sid a", cases "EnterpriseMeta_sid b") auto
  moreover have "ID a < ID b \<or> ID a = ID b \<or> ID b < ID a" by (rule less_linear)
  moreover have "Partition (EnterpriseMeta_sid a) < Partition (EnterpriseMeta_sid b) \<or>
      Partition (EnterpriseMeta_sid a) = Partition (EnterpriseMeta_sid b) \<or>
      Partition (EnterpriseMeta_sid b) < Partition (EnterpriseMeta_sid a)" by (rule less_linear)
  moreover have "Namespace (EnterpriseMeta_sid a) < Namespace (EnterpriseMeta_sid b) \<or>
      Namespace (EnterpriseMeta_sid a) = Namespace (EnterpriseMeta_sid b) \<or>
      Namespace (EnterpriseMeta_sid b) < Namespace (EnterpriseMeta_sid a)" by (rule less_linear)
  ultimately show ?thesis unfolding LessThan_def by argo
qed

lemma sorted_insert_LessThan:
  "sorted_wrt LessThan ys \<Longrightarrow> x \<notin> set ys \<Longrightarrow> sorted_wrt LessThan (insert_less LessThan x ys)"
proof (induction ys)
  case Nil
  show ?case by simp
next
  case (Cons y ys)
  show ?case
  proof (cases "LessThan y x")
    case True
    with Cons show ?thesis by (auto simp: set_insert_less)
  next
    case False
    with Cons.prems have xy: "LessThan x y" using LessThan_total[of x y] by auto
    with Cons.prems have "\<forall>z\<in>set ys. LessThan x z" by (auto intro: LessThan_trans)
    with xy False Cons.prems show ?thesis by simp
  qed
qed

lemma sorted_sort_Slice: "distinct xs \<Longrightarrow> sorted_wrt LessThan (sort_Slice LessThan xs)"
proof (induction xs)
  case Nil
  show ?case by (simp add: sort_Slice_def)
next
  case (Cons x xs)
  then have "sorted_wrt LessThan (insert_less LessThan x (sort_Slice LessThan xs))"
    by (intro sorted_insert_LessThan) (simp_all add: set_sort_Slice)
  then show ?case by (simp add: sort_Slice_def)
qed

section \<open>The result of a call\<close>

lemma summarizeServices_char:
  "\<exists>st. scan f cfg dc \<lparr>services = [], summary = Map.empty\<rparr> dump = Inr st \<and>
        distinct (services st) \<and>
        (\<forall>sid. sid \<in> set (services st) \<longleftrightarrow> (\<exists>csn\<in>set dump. touches sid csn)) \<and>
        (\<forall>sid. key_scan f cfg dc sid (new_summary sid) dump = Inr (vsum st sid)) \<and>
        summarizeServices f dump cfg dc =
          Inr (map (\<lambda>sid. Some (sort_summary (vsum st sid)))
                 (sort_Slice LessThan (services st)))"
proof -
  obtain st where st: "scan f cfg dc \<lparr>services = [], summary = Map.empty\<rparr> dump = Inr st"
    using scan_total by blast
  have v: "st_inv st"
    and k: "\<And>sid. key_scan f cfg dc sid (new_summary sid) dump = Inr (vsum st sid)"
    and d: "\<And>sid. summary st sid \<noteq> None \<longleftrightarrow> (\<exists>csn\<in>set dump. touches sid csn)"
    using scan_view[OF st st_inv_init] by (simp_all add: vsum_init)
  have c: "card (dom (summary st)) = length (services st)"
    using v by (metis st_inv_def distinct_card)
  have m: "\<forall>x\<in>set (sort_Slice LessThan (services st)). summary st x \<noteq> None"
    using v by (auto simp: st_inv_def set_sort_Slice)
  have e: "map (\<lambda>sid. Some (sort_summary (the (summary st sid)))) (sort_Slice LessThan (services st))
         = map (\<lambda>sid. Some (sort_summary (vsum st sid))) (sort_Slice LessThan (services st))"
    using m by (auto simp: vsum_def)
  have "fill_output (summary st) 0 (sort_Slice LessThan (services st))
          (replicate (card (dom (summary st))) None)
        = Inr (map (\<lambda>sid. Some (sort_summary (vsum st sid))) (sort_Slice LessThan (services st)))"
    by (subst fill_output_eq) (simp_all add: c length_sort_Slice m e)
  then have "summarizeServices f dump cfg dc =
          Inr (map (\<lambda>sid. Some (sort_summary (vsum st sid)))
                 (sort_Slice LessThan (services st)))"
    by (simp add: summarizeServices_def st)
  moreover have "\<forall>sid. sid \<in> set (services st) \<longleftrightarrow> (\<exists>csn\<in>set dump. touches sid csn)"
    using v d by (auto simp: st_inv_def)
  ultimately show ?thesis using st v k by (auto simp: st_inv_def)
qed

lemma sort_summary_simps:
  "Name (sort_summary s) = Name s" "EnterpriseMeta (sort_summary s) = EnterpriseMeta s"
  "Kind (sort_summary s) = Kind s" "InstanceCount (sort_summary s) = InstanceCount s"
  "ProxyFor (sort_summary s) = ProxyFor s" "ExternalSources (sort_summary s) = ExternalSources s"
  "GatewayConfig (sort_summary s) = GatewayConfig s"
  "ChecksPassing (sort_summary s) = ChecksPassing s"
  "ChecksWarning (sort_summary s) = ChecksWarning s"
  "ChecksCritical (sort_summary s) = ChecksCritical s"
  "Nodes (sort_summary s) = sort_Strings (Nodes s)"
  "Tags (sort_summary s) = sort_Strings (Tags s)"
  by (simp_all add: sort_summary_def Let_def)

lemma elems_sort_Strings: "elems (sort_Strings sl) = sort (elems sl)"
  by (cases sl) (simp_all add: sort_Strings_def elems_def)

lemma sort_Nil_iff: "sort xs = [] \<longleftrightarrow> xs = []"
  by (metis length_0_conv length_sort)

lemma sort_Strings_nonempty: "sl \<noteq> Some [] \<Longrightarrow> sort_Strings sl \<noteq> Some []"
  by (cases sl) (auto simp: sort_Strings_def sort_Nil_iff)

lemma key_scan_new:
  assumes "key_scan f cfg dc sid (new_summary sid) dump = Inr s0"
  shows "extends_by f cfg dc sid (new_summary sid) dump s0" and "sid_of (sort_summary s0) = sid"
proof -
  show e: "extends_by f cfg dc sid (new_summary sid) dump s0"
    by (rule key_scan_effect[OF assms new_summary_inv])
  then have "Name s0 = ID sid" "EnterpriseMeta s0 = EnterpriseMeta_sid sid"
    by (simp_all add: extends_by_def new_summary_def)
  then show "sid_of (sort_summary s0) = sid"
    by (simp add: sid_of_def sort_summary_simps)
qed

lemma output_summary:
  assumes "summarizeServices f dump cfg dc = Inr out" and "x \<in> set out"
  shows "\<exists>s0. x = Some (sort_summary s0) \<and>
           extends_by f cfg dc (sid_of (sort_summary s0)) (new_summary (sid_of (sort_summary s0)))
             dump s0 \<and>
           (\<exists>csn\<in>set dump. touches (sid_of (sort_summary s0)) csn)"
proof -
  from summarizeServices_char[of f cfg dc dump] obtain st where
    t: "\<forall>sid. sid \<in> set (services st) \<longleftrightarrow> (\<exists>csn\<in>set dump. touches sid csn)"
    and k: "\<forall>sid. key_scan f cfg dc sid (new_summary sid) dump = Inr (vsum st sid)"
    and o: "summarizeServices f dump cfg dc =
          Inr (map (\<lambda>sid. Some (sort_summary (vsum st sid)))
                 (sort_Slice LessThan (services st)))"
    by blast
  from o assms obtain sid where sid: "sid \<in> set (services st)"
    and x: "x = Some (sort_summary (vsum st sid))"
    by (auto simp: set_sort_Slice)
  from k have ks: "key_scan f cfg dc sid (new_summary sid) dump = Inr (vsum st sid)" by blast
  note n = key_scan_new[OF ks]
  from sid t have "\<exists>csn\<in>set dump. touches sid csn" by blast
  with n x show ?thesis by (intro exI[of _ "vsum st sid"]) simp
qed

lemma first_seen_distinct: "distinct (first_seen xs)"
  by (simp add: first_seen_def distinct_first_seen_into)

lemma set_first_seen: "set (first_seen xs) = set xs"
  by (simp add: first_seen_def set_first_seen_into)

lemma output_facts:
  assumes "summarizeServices f dump cfg dc = Inr out" and "Some s \<in> set out"
  shows "InstanceCount s = int (length (instance_records (sid_of s) dump))"
    and "elems (Nodes s) = sort (map (\<lambda>r. Node (Node_csn r)) (instance_records (sid_of s) dump))"
    and "elems (Tags s) = sort (first_seen (concat (map Tags_svc (instances (sid_of s) dump))))"
    and "elems (ProxyFor s) = first_seen (proxy_destinations (instances (sid_of s) dump))"
    and "elems (ExternalSources s) = first_seen (external_sources (instances (sid_of s) dump))"
    and "elems (Addresses (GatewayConfig s)) =
           first_seen (concat (map (gateway_addresses f cfg dc (sid_of s)) dump))"
    and "Kind s = last_kind '''' (instances (sid_of s) dump)"
    and "ChecksPassing s = count_status HealthPassing (instance_records (sid_of s) dump)"
    and "ChecksWarning s = count_status HealthWarning (instance_records (sid_of s) dump)"
    and "ChecksCritical s = count_status HealthCritical (instance_records (sid_of s) dump)"
    and "Tags s \<noteq> Some []" and "Nodes s \<noteq> Some []" and "ProxyFor s \<noteq> Some []"
    and "ExternalSources s \<noteq> Some []" and "Addresses (GatewayConfig s) \<noteq> Some []"
    and "\<exists>csn\<in>set dump. touches (sid_of s) csn"
proof -
  from output_summary[OF assms] obtain s0 where s: "s = sort_summary s0"
    and e: "extends_by f cfg dc (sid_of s) (new_summary (sid_of s)) dump s0"
    and t: "\<exists>csn\<in>set dump. touches (sid_of s) csn"
    by auto
  have n: "elems (Tags (new_summary (sid_of s))) = []" "elems (Nodes (new_summary (sid_of s))) = []"
    "elems (ProxyFor (new_summary (sid_of s))) = []"
    "elems (ExternalSources (new_summary (sid_of s))) = []"
    "elems (Addresses (GatewayConfig (new_summary (sid_of s)))) = []"
    "InstanceCount (new_summary (sid_of s)) = 0" "Kind (new_summary (sid_of s)) = []"
    "ChecksPassing (new_summary (sid_of s)) = 0" "ChecksWarning (new_summary (sid_of s)) = 0"
    "ChecksCritical (new_summary (sid_of s)) = 0"
    by (simp_all add: new_summary_def elems_def)
  note E = e[unfolded extends_by_def n]
  show "InstanceCount s = int (length (instance_records (sid_of s) dump))"
    using E by (subst s) (simp add: sort_summary_simps)
  show "elems (Nodes s) = sort (map (\<lambda>r. Node (Node_csn r)) (instance_records (sid_of s) dump))"
    using E by (subst s) (simp add: sort_summary_simps elems_sort_Strings)
  show "elems (Tags s) = sort (first_seen (concat (map Tags_svc (instances (sid_of s) dump))))"
    using E by (subst s) (simp add: sort_summary_simps elems_sort_Strings first_seen_def)
  show "elems (ProxyFor s) = first_seen (proxy_destinations (instances (sid_of s) dump))"
    using E by (subst s) (simp add: sort_summary_simps first_seen_def)
  show "elems (ExternalSources s) = first_seen (external_sources (instances (sid_of s) dump))"
    using E by (subst s) (simp add: sort_summary_simps first_seen_def)
  show "elems (Addresses (GatewayConfig s)) =
           first_seen (concat (map (gateway_addresses f cfg dc (sid_of s)) dump))"
    using E by (subst s) (simp add: sort_summary_simps first_seen_def)
  show "Kind s = last_kind '''' (instances (sid_of s) dump)"
    using E by (subst s) (simp add: sort_summary_simps)
  show "ChecksPassing s = count_status HealthPassing (instance_records (sid_of s) dump)"
    using E by (subst s) (simp add: sort_summary_simps)
  show "ChecksWarning s = count_status HealthWarning (instance_records (sid_of s) dump)"
    using E by (subst s) (simp add: sort_summary_simps)
  show "ChecksCritical s = count_status HealthCritical (instance_records (sid_of s) dump)"
    using E by (subst s) (simp add: sort_summary_simps)
  have i: "sum_inv s0" using E by simp
  show "Tags s \<noteq> Some []" using i
    by (subst s) (simp add: sort_summary_simps sort_Strings_nonempty sum_inv_def)
  show "Nodes s \<noteq> Some []" using i
    by (subst s) (simp add: sort_summary_simps sort_Strings_nonempty sum_inv_def)
  show "ProxyFor s \<noteq> Some []" using i
    by (subst s) (simp add: sort_summary_simps sum_inv_def)
  show "ExternalSources s \<noteq> Some []" using i
    by (subst s) (simp add: sort_summary_simps sum_inv_def)
  show "Addresses (GatewayConfig s) \<noteq> Some []" using i
    by (subst s) (simp add: sort_summary_simps sum_inv_def)
  show "\<exists>csn\<in>set dump. touches (sid_of s) csn" by (rule t)
qed


lemma output_order:
  assumes "summarizeServices f dump cfg dc = Inr out"
  shows "\<forall>x\<in>set out. x \<noteq> None"
    and "sorted_wrt LessThan (map (\<lambda>x. sid_of (the x)) out)"
    and "set (map (\<lambda>x. sid_of (the x)) out) = {sid. \<exists>csn\<in>set dump. touches sid csn}"
proof -
  from summarizeServices_char[of f cfg dc dump] obtain st where
    d: "distinct (services st)"
    and t: "\<forall>sid. sid \<in> set (services st) \<longleftrightarrow> (\<exists>csn\<in>set dump. touches sid csn)"
    and k: "\<forall>sid. key_scan f cfg dc sid (new_summary sid) dump = Inr (vsum st sid)"
    and o: "summarizeServices f dump cfg dc =
          Inr (map (\<lambda>sid. Some (sort_summary (vsum st sid)))
                 (sort_Slice LessThan (services st)))"
    by blast
  from o assms have out: "out = map (\<lambda>sid. Some (sort_summary (vsum st sid)))
                 (sort_Slice LessThan (services st))" by simp
  have "\<And>sid. sid_of (sort_summary (vsum st sid)) = sid"
    using k key_scan_new(2) by blast
  then have m: "map (\<lambda>x. sid_of (the x)) out = sort_Slice LessThan (services st)"
    by (simp add: out comp_def)
  show "\<forall>x\<in>set out. x \<noteq> None" by (auto simp: out)
  show "sorted_wrt LessThan (map (\<lambda>x. sid_of (the x)) out)"
    unfolding m by (rule sorted_sort_Slice[OF d])
  show "set (map (\<lambda>x. sid_of (the x)) out) = {sid. \<exists>csn\<in>set dump. touches sid csn}"
    unfolding m using t by (auto simp: set_sort_Slice)
qed

section \<open>The example inputs, evaluated\<close>

lemmas agg_defs = summarizeServices_def scan_record_def scan_gateway_def scan_instance_def
  getService_def put_summary_def add_instance_def add_proxyFor_def add_externalSource_def
  new_summary_def NewServiceID_def ToServiceID_def append_slice_def elems_def sort_Strings_def
  sort_summary_def has_key_def set_key_def meta_get_def sort_Slice_def
  modifySummaryForGatewayService_def dnsAddresses_of_def ServiceKindConnectProxy_def
  metaExternalSource_def HealthPassing_def HealthWarning_def HealthCritical_def LessThan_def
  Let_def

lemmas ex_in_defs = ex_entMeta_def ex_service_def ex_record_def scenario_A_def
  ex_serviceIngressDNSName_def ex_cfg_def ex_gateway_def ex_dump_def

lemmas ex_defs = ex_in_defs scenario_A_summary_def ex_api_summary_def ex_proxy_summary_def

lemma scenario_A_result:
  "summarizeServices f scenario_A cfg dc = Inr [Some scenario_A_summary]"
  by (simp add: agg_defs ex_defs)

lemma ex_dump_result:
  "summarizeServices ex_serviceIngressDNSName ex_dump ex_cfg ''dc1'' =
     Inr [Some ex_api_summary, Some ex_proxy_summary]"
  by (simp add: agg_defs ex_defs insert_commute)

lemma ex_sid_of:
  "sid_of ex_proxy_summary = \<lparr>ID = ''web-proxy'', EnterpriseMeta_sid = ex_entMeta\<rparr>"
  "sid_of ex_api_summary = \<lparr>ID = ''api'', EnterpriseMeta_sid = ex_entMeta\<rparr>"
  "sid_of scenario_A_summary = \<lparr>ID = ''web'', EnterpriseMeta_sid = ex_entMeta\<rparr>"
  by (simp_all add: sid_of_def ex_proxy_summary_def ex_api_summary_def scenario_A_summary_def)

lemmas spec_defs = instance_records_def instances_def instance_of_def
  NewServiceID_def ToServiceID_def proxy_destinations_def external_sources_def count_status_def
  gateway_addresses_def first_seen_def last_kind_def meta_get_def metaExternalSource_def
  ServiceKindConnectProxy_def HealthPassing_def HealthWarning_def HealthCritical_def
  dnsAddresses_of_def touches_def

section \<open>Properties of the service aggregator\<close>

text \<open>
  C7: for every input and every output summary, InstanceCount is the number of input records
  that carry a direct instance resolving to the summary's ServiceID (a record with only a
  gateway association is none of them), and Nodes holds the node name of each of those
  records, once per record, sorted but not deduplicated. On scenario A the result is the one
  summary with Name web, InstanceCount 3, Nodes n1, n1, n2 and Tags a, b, c.
\<close>

theorem instance_count_and_nodes:
  "(summarizeServices f dump cfg dc = Inr out \<longrightarrow>
      (\<forall>s. Some s \<in> set out \<longrightarrow>
         InstanceCount s = int (length (instance_records (sid_of s) dump)) \<and>
         elems (Nodes s) =
           sort (map (\<lambda>r. Node (Node_csn r)) (instance_records (sid_of s) dump)) \<and>
         (\<forall>r\<in>set (instance_records (sid_of s) dump). Service_csn r \<noteq> None))) \<and>
   summarizeServices f scenario_A cfg dc = Inr [Some scenario_A_summary] \<and>
   Name scenario_A_summary = ''web'' \<and> InstanceCount scenario_A_summary = 3 \<and>
   Nodes scenario_A_summary = Some [''n1'', ''n1'', ''n2''] \<and>
   Tags scenario_A_summary = Some [''a'', ''b'', ''c'']"
proof -
  have g: "\<forall>r\<in>set (instance_records sid dump). Service_csn r \<noteq> None" for sid
    by (auto simp: instance_records_def instance_of_def split: option.splits)
  have "InstanceCount s = int (length (instance_records (sid_of s) dump)) \<and>
         elems (Nodes s) =
           sort (map (\<lambda>r. Node (Node_csn r)) (instance_records (sid_of s) dump)) \<and>
         (\<forall>r\<in>set (instance_records (sid_of s) dump). Service_csn r \<noteq> None)"
    if "summarizeServices f dump cfg dc = Inr out" and "Some s \<in> set out" for s
    using output_facts(1,2)[OF that] g by blast
  moreover have "Name scenario_A_summary = ''web'' \<and> InstanceCount scenario_A_summary = 3 \<and>
   Nodes scenario_A_summary = Some [''n1'', ''n1'', ''n2''] \<and>
   Tags scenario_A_summary = Some [''a'', ''b'', ''c'']"
    by (simp add: scenario_A_summary_def)
  ultimately show ?thesis using scenario_A_result[of f cfg dc] by blast
qed

theorem instance_count_and_nodes_witness:
  "summarizeServices ex_serviceIngressDNSName ex_dump ex_cfg ''dc1'' =
     Inr [Some ex_api_summary, Some ex_proxy_summary] \<and>
   Some ex_proxy_summary \<in> set [Some ex_api_summary, Some ex_proxy_summary] \<and>
   InstanceCount ex_proxy_summary = 3 \<and>
   length (instance_records (sid_of ex_proxy_summary) ex_dump) = 3 \<and>
   elems (Nodes ex_proxy_summary) = [''n1'', ''n1'', ''n2''] \<and>
   Some ex_api_summary \<in> set [Some ex_api_summary, Some ex_proxy_summary] \<and>
   InstanceCount ex_api_summary = 0 \<and> elems (Nodes ex_api_summary) = []"
proof -
  have l: "length (instance_records (sid_of ex_proxy_summary) ex_dump) = 3"
    by (simp add: ex_sid_of spec_defs ex_in_defs)
  have m: "Some ex_proxy_summary \<in> set [Some ex_api_summary, Some ex_proxy_summary]" by simp
  from instance_count_and_nodes[of ex_serviceIngressDNSName ex_dump ex_cfg "''dc1''"
      "[Some ex_api_summary, Some ex_proxy_summary]"] ex_dump_result m
  have "InstanceCount ex_proxy_summary =
          int (length (instance_records (sid_of ex_proxy_summary) ex_dump))"
    by blast
  moreover have "InstanceCount ex_proxy_summary = 3 \<and>
     elems (Nodes ex_proxy_summary) = [''n1'', ''n1'', ''n2''] \<and>
     InstanceCount ex_api_summary = 0 \<and> elems (Nodes ex_api_summary) = []"
    by (simp add: ex_proxy_summary_def ex_api_summary_def elems_def)
  ultimately show ?thesis using l ex_dump_result by simp
qed

text \<open>
  C10: when direct instances of one ServiceID carry different kinds, the summary's Kind is
  the kind of the last of them in input order.
\<close>

theorem kind_of_last_instance:
  assumes "summarizeServices f dump cfg dc = Inr out" and "Some s \<in> set out"
    and "instances (sid_of s) dump \<noteq> []"
  shows "Kind s = Kind_svc (last (instances (sid_of s) dump))"
  using output_facts(7)[OF assms(1,2)] assms(3) by (simp add: last_kind_def)

theorem kind_of_last_instance_witness:
  "summarizeServices ex_serviceIngressDNSName ex_dump ex_cfg ''dc1'' =
     Inr [Some ex_api_summary, Some ex_proxy_summary] \<and>
   Some ex_proxy_summary \<in> set [Some ex_api_summary, Some ex_proxy_summary] \<and>
   map Kind_svc (instances (sid_of ex_proxy_summary) ex_dump) =
     [''connect-proxy'', ''connect-proxy'', ''''] \<and>
   Kind ex_proxy_summary = Kind_svc (last (instances (sid_of ex_proxy_summary) ex_dump)) \<and>
   Kind ex_proxy_summary = ''''"
proof -
  have i: "map Kind_svc (instances (sid_of ex_proxy_summary) ex_dump) =
     [''connect-proxy'', ''connect-proxy'', '''']"
    by (simp add: ex_sid_of spec_defs ex_in_defs)
  then have n: "instances (sid_of ex_proxy_summary) ex_dump \<noteq> []" by auto
  have m: "Some ex_proxy_summary \<in> set [Some ex_api_summary, Some ex_proxy_summary]" by simp
  from kind_of_last_instance[OF ex_dump_result m n] i show ?thesis
    by (simp add: ex_dump_result) (simp add: ex_proxy_summary_def)
qed



end
